theory Spec2Isabelle
  imports Complex_Main
begin

section \<open>The Covid-19 compartment model of the notebook\<close>

text \<open>
  The notebook computes with Python floats and numpy arrays. The embedding reads every
  float as the real number it stands for and every arithmetic operation as the exact
  one, so rounding, overflow and the non-finite values of IEEE arithmetic are outside
  the model. What Python does besides computing a number is kept: a division by zero
  raises, unpacking a list of the wrong length raises, inverting a singular matrix
  raises. A numpy array is the list of its rows.
\<close>

datatype error = ZeroDivisionError | ValueError | LinAlgError

text \<open>The parameter cell of the notebook: ten global variables, read by the later cells.\<close>

record params =
  betaP :: real
  betaA :: real
  betaS :: real
  tauE :: real
  tauP :: real
  tauI :: real
  tauD :: real
  f :: real
  d :: real
  N :: real

subsection \<open>The derivative function\<close>

text \<open>
  \<^verbatim>\<open>def SEIR(y, t, betaP, betaA, betaS, tauE, tauP, tauI, tauD, f, d, N)\<close> unpacks
  \<open>y\<close> into six names (a \<open>ValueError\<close> for any other length), then builds the list of
  the six right-hand sides. The divisors of the body are \<open>N\<close>, \<open>tauE\<close>, \<open>tauP\<close>,
  \<open>tauI\<close> and \<open>tauD\<close>; each of them is divided by on every call, so the call raises
  \<open>ZeroDivisionError\<close> exactly when one of them is zero. (When the solver makes the
  call, \<open>S\<close> is a numpy scalar, and a zero \<open>N\<close> alone gives a non-finite quotient
  instead of the exception; that quotient is no real number, and the model has the error
  in its place.)
\<close>

definition SEIR ::
  "real list \<Rightarrow> real \<Rightarrow> real \<Rightarrow> real \<Rightarrow> real \<Rightarrow> real \<Rightarrow> real \<Rightarrow> real \<Rightarrow> real \<Rightarrow> real \<Rightarrow> real \<Rightarrow> real
     \<Rightarrow> error + real list" where
  "SEIR = (\<lambda>y t betaP betaA betaS tauE tauP tauI tauD f d N.
     case y of
       [S, E, Ip, Ia, Is, R] \<Rightarrow>
         if N = 0 \<or> tauE = 0 \<or> tauP = 0 \<or> tauI = 0 \<or> tauD = 0 then Inl ZeroDivisionError
         else Inr [- (S / N) * (betaP * Ip + betaA * Ia + betaS * Is),
                   (S / N) * (betaP * Ip + betaA * Ia + betaS * Is) - (1 / tauE) * E,
                   (1 / tauE) * E - (1 / tauP) * Ip,
                   (f / tauP) * Ip - (1 / tauI) * Ia,
                   ((1 - f) / tauP) * Ip - ((1 - d) / tauI) * Is - (d / tauD) * Is,
                   (1 / tauI) * Ia + ((1 - d) / tauI) * Is]
     | _ \<Rightarrow> Inl ValueError)"

text \<open>The call of the integration cell: \<open>SEIR\<close> with the global parameters as \<open>args\<close>.\<close>

definition SEIR_args :: "params \<Rightarrow> real list \<Rightarrow> real \<Rightarrow> error + real list" where
  "SEIR_args p y t =
     SEIR y t (betaP p) (betaA p) (betaS p) (tauE p) (tauP p) (tauI p) (tauD p) (f p) (d p) (N p)"

subsection \<open>The next-generation matrix\<close>

text \<open>
  \<^verbatim>\<open>V = np.array([[1/tauE,0,0,0],[-1/tauE,1/tauP,0,0],[0,-f/tauP,1/tauI,0],
                 [0,-(1-f)/tauP,0,(1-d)/tauI + d/tauD]])\<close>
  divides by each of the four durations, so the cell raises when one of them is zero.
\<close>

definition V :: "params \<Rightarrow> error + real list list" where
  "V p =
     (if tauE p = 0 \<or> tauP p = 0 \<or> tauI p = 0 \<or> tauD p = 0 then Inl ZeroDivisionError
      else Inr [[1 / tauE p, 0, 0, 0],
                [- 1 / tauE p, 1 / tauP p, 0, 0],
                [0, - f p / tauP p, 1 / tauI p, 0],
                [0, - (1 - f p) / tauP p, 0, (1 - d p) / tauI p + d p / tauD p]])"

text \<open>\<^verbatim>\<open>F = np.array([[0,betaP,betaA,betaA],[0,0,0,0],[0,0,0,0],[0,0,0,0]])\<close>\<close>

definition F :: "params \<Rightarrow> real list list" where
  "F p = [[0, betaP p, betaA p, betaA p], [0, 0, 0, 0], [0, 0, 0, 0], [0, 0, 0, 0]]"

text \<open>
  The determinant, by expansion along the first row; \<open>delete_col j\<close> removes entry \<open>j\<close>
  of a row and \<open>minor M i j\<close> removes row \<open>i\<close> and column \<open>j\<close> of a matrix.
\<close>

definition delete_col :: "nat \<Rightarrow> real list \<Rightarrow> real list" where
  "delete_col j row = take j row @ drop (Suc j) row"

fun det :: "real list list \<Rightarrow> real" where
  "det [] = 1"
| "det (r # rs) = (\<Sum>j\<leftarrow>[0..<length r]. (- 1) ^ j * r ! j * det (map (delete_col j) rs))"

definition minor :: "real list list \<Rightarrow> nat \<Rightarrow> nat \<Rightarrow> real list list" where
  "minor M i j = map (delete_col j) (take i M @ drop (Suc i) M)"

definition square :: "real list list \<Rightarrow> bool" where
  "square M \<longleftrightarrow> (\<forall>row \<in> set M. length row = length M)"

text \<open>
  \<^verbatim>\<open>numpy.linalg.inv\<close> in exact arithmetic: a \<open>LinAlgError\<close> for a matrix that is
  not square or is singular, and otherwise the inverse, here written as the transposed
  cofactor matrix over the determinant.
\<close>

definition la_inv :: "real list list \<Rightarrow> error + real list list" where
  "la_inv M =
     (if \<not> square M \<or> det M = 0 then Inl LinAlgError
      else Inr (map (\<lambda>i. map (\<lambda>j. (- 1) ^ (i + j) * det (minor M j i) / det M) [0..<length M])
                 [0..<length M]))"

text \<open>\<^verbatim>\<open>numpy.matmul\<close> on two-dimensional arrays: rows of \<open>A\<close> against columns of \<open>B\<close>.\<close>

definition matmul :: "real list list \<Rightarrow> real list list \<Rightarrow> real list list" where
  "matmul A B =
     map (\<lambda>row. map (\<lambda>j. \<Sum>k\<leftarrow>[0..<length B]. row ! k * B ! k ! j)
                   [0..<(case B of [] \<Rightarrow> 0 | b # _ \<Rightarrow> length b)]) A"

text \<open>\<^verbatim>\<open>G = np.matmul(F, la.inv(V))\<close>\<close>

definition G :: "params \<Rightarrow> error + real list list" where
  "G p =
     (case V p of
        Inl e \<Rightarrow> Inl e
      | Inr v \<Rightarrow> (case la_inv v of Inl e \<Rightarrow> Inl e | Inr vinv \<Rightarrow> Inr (matmul (F p) vinv)))"

subsection \<open>The basic reproduction number\<close>

text \<open>
  \<^verbatim>\<open>R_0 = np.max(la.eig(G)[:1])\<close>. The call \<open>la.eig(G)\<close> returns a pair: the
  one-dimensional array of the eigenvalues and the two-dimensional array of the
  eigenvectors. The slice \<open>[:1]\<close> is taken of that pair, not of the eigenvalues: it is
  the one-element tuple holding the whole eigenvalue array. \<open>np.max\<close> then reduces over
  every entry of what it is given, and raises \<open>ValueError\<close> when there is none.
\<close>

datatype ndarray = Array1 "real list" | Array2 "real list list"

fun ravel :: "ndarray \<Rightarrow> real list" where
  "ravel (Array1 xs) = xs"
| "ravel (Array2 xss) = concat xss"

definition np_max :: "ndarray list \<Rightarrow> error + real" where
  "np_max arrs =
     (case concat (map ravel arrs) of [] \<Rightarrow> Inl ValueError | x # xs \<Rightarrow> Inr (fold max xs x))"

text \<open>
  The eigenvalue routine is LAPACK's, not the notebook's; it is a parameter \<open>eig\<close> of
  the model, a function from a matrix to the pair it returns.
\<close>

type_synonym eig_routine = "real list list \<Rightarrow> real list \<times> real list list"

definition R_0 :: "eig_routine \<Rightarrow> params \<Rightarrow> error + real" where
  "R_0 eig p =
     (case G p of
        Inl e \<Rightarrow> Inl e
      | Inr g \<Rightarrow> (case eig g of (w, v) \<Rightarrow> np_max (take 1 [Array1 w, Array2 v])))"

text \<open>
  What the routine is relied on for: the list it returns holds the eigenvalues of the
  matrix, each as often as its multiplicity. \<open>shift M x\<close> is \<open>M - x I\<close>, and \<open>ws\<close> are
  the eigenvalues of \<open>M\<close> when the characteristic polynomial \<open>det (M - x I)\<close> is the
  product of the \<open>w - x\<close>.
\<close>

definition shift :: "real list list \<Rightarrow> real \<Rightarrow> real list list" where
  "shift M x = map (\<lambda>i. (M ! i)[i := M ! i ! i - x]) [0..<length M]"

definition is_eigvals :: "real list list \<Rightarrow> real list \<Rightarrow> bool" where
  "is_eigvals M ws \<longleftrightarrow>
     length ws = length M \<and> (\<forall>x. det (shift M x) = prod_list (map (\<lambda>w. w - x) ws))"

text \<open>
  The routine does what it is relied on for at the parameters \<open>p\<close> when the list it
  returns for the matrix \<open>G\<close> of \<open>p\<close> holds the eigenvalues of that matrix.
\<close>

definition eig_contract :: "eig_routine \<Rightarrow> params \<Rightarrow> bool" where
  "eig_contract eig p \<longleftrightarrow> (\<forall>g. G p = Inr g \<longrightarrow> is_eigvals g (fst (eig g)))"

text \<open>
  One routine of that type, for running the model on concrete parameters: it reads the
  eigenvalues off the diagonal, which is what they are for a triangular matrix, and
  returns the unit vectors in the second component.
\<close>

definition diag_eig :: eig_routine where
  "diag_eig M =
     (map (\<lambda>i. M ! i ! i) [0..<length M],
      map (\<lambda>i. map (\<lambda>j. if i = j then 1 else 0) [0..<length M]) [0..<length M])"

text \<open>The closed form that the matrix computation is compared with.\<close>

definition R0_closed_form :: "params \<Rightarrow> real" where
  "R0_closed_form p =
     betaP p * tauP p + betaA p * f p * tauI p
       + betaA p * (1 - f p) / ((1 - d p) / tauI p + d p / tauD p)"

text \<open>The parameter values of the notebook.\<close>

definition notebook_params :: params where
  "notebook_params =
     \<lparr>betaP = 8 / 10, betaA = 8 / 10, betaS = 8 / 10, tauE = 35 / 10, tauP = 15 / 10,
      tauI = 35 / 10, tauD = 14, f = 3 / 10, d = 5 / 100, N = 49 / 10 * 10 ^ 6\<rparr>"

subsection \<open>Trajectories\<close>

text \<open>
  \<^verbatim>\<open>sol = odeint(SEIR, y0, t, args = (betaP, ..., N))\<close>. The cell passes \<open>SEIR\<close>,
  the initial state and the time grid to scipy's solver and does nothing else; the solver
  is a parameter \<open>odeint\<close> of the model.
\<close>

type_synonym rhs = "real list \<Rightarrow> real \<Rightarrow> error + real list"

type_synonym solver = "rhs \<Rightarrow> real list \<Rightarrow> real list \<Rightarrow> error + real list list"

definition sol :: "solver \<Rightarrow> params \<Rightarrow> real list \<Rightarrow> real list \<Rightarrow> error + real list list" where
  "sol odeint p y0 ts = odeint (SEIR_args p) y0 ts"

text \<open>
  One solver of that type, for running the cell on concrete inputs: a forward step from
  each grid point to the next. An error of the right-hand side ends the run, as an
  exception in the callback ends the solver's.
\<close>

fun euler_from :: "rhs \<Rightarrow> real list \<Rightarrow> real \<Rightarrow> real list \<Rightarrow> error + real list list" where
  "euler_from g y s [] = Inr [y]"
| "euler_from g y s (s' # ts) =
     (case g y s of
        Inl e \<Rightarrow> Inl e
      | Inr dy \<Rightarrow>
          (case euler_from g (map2 (\<lambda>v w. v + (s' - s) * w) y dy) s' ts of
             Inl e \<Rightarrow> Inl e
           | Inr rows \<Rightarrow> Inr (y # rows)))"

definition euler :: solver where
  "euler g y0 ts = (case ts of [] \<Rightarrow> Inr [] | s # ts' \<Rightarrow> euler_from g y0 s ts')"

text \<open>
  The trajectory that the solver approximates is a solution of the differential equation:
  at every time \<open>t\<close> of the interval from \<open>a\<close> to \<open>b\<close> the state \<open>Y t\<close> is one that
  \<open>SEIR\<close> accepts, and each component has at \<open>t\<close> the derivative that \<open>SEIR\<close> returns
  for it. The rows that the solver returns are the values of \<open>Y\<close> at the requested times,
  up to the error of the numerical method, which is outside the model.
\<close>

definition trajectory :: "params \<Rightarrow> (real \<Rightarrow> real list) \<Rightarrow> real \<Rightarrow> real \<Rightarrow> bool" where
  "trajectory p Y a b \<longleftrightarrow>
     (\<forall>t. a \<le> t \<and> t \<le> b \<longrightarrow>
        (\<exists>dydt. SEIR_args p (Y t) t = Inr dydt \<and>
           (\<forall>i<6. ((\<lambda>s. Y s ! i) has_real_derivative dydt ! i) (at t))))"

section \<open>Properties\<close>

subsection \<open>The derivative function\<close>

lemma SEIR_six:
  "SEIR [S, E, Ip, Ia, Is, R] t bP bA bS tE tP tI tD ff dd NN =
     (if NN = 0 \<or> tE = 0 \<or> tP = 0 \<or> tI = 0 \<or> tD = 0 then Inl ZeroDivisionError
      else Inr [- (S / NN) * (bP * Ip + bA * Ia + bS * Is),
                (S / NN) * (bP * Ip + bA * Ia + bS * Is) - (1 / tE) * E,
                (1 / tE) * E - (1 / tP) * Ip,
                (ff / tP) * Ip - (1 / tI) * Ia,
                ((1 - ff) / tP) * Ip - ((1 - dd) / tI) * Is - (dd / tD) * Is,
                (1 / tI) * Ia + ((1 - dd) / tI) * Is])"
  by (simp add: SEIR_def)

lemma SEIR_Inr_six:
  assumes "SEIR y t bP bA bS tE tP tI tD ff dd NN = Inr dydt"
  obtains S E Ip Ia Is R where "y = [S, E, Ip, Ia, Is, R]"
    and "NN \<noteq> 0" and "tE \<noteq> 0" and "tP \<noteq> 0" and "tI \<noteq> 0" and "tD \<noteq> 0"
  using assms by (auto simp: SEIR_def split: list.splits if_splits)

lemma SEIR_rhs:
  assumes "NN \<noteq> 0" "tE \<noteq> 0" "tP \<noteq> 0" "tI \<noteq> 0" "tD \<noteq> 0"
  shows "SEIR [S, E, Ip, Ia, Is, R] t bP bA bS tE tP tI tD ff dd NN =
     Inr [- (S / NN) * (bP * Ip + bA * Ia + bS * Is),
          (S / NN) * (bP * Ip + bA * Ia + bS * Is) - E / tE,
          E / tE - Ip / tP,
          ff * Ip / tP - Ia / tI,
          (1 - ff) * Ip / tP - (1 - dd) * Is / tI - dd * Is / tD,
          Ia / tI + (1 - dd) * Is / tI]"
  using assms by (simp add: SEIR_six)

lemma SEIR_sum:
  assumes "SEIR y t bP bA bS tE tP tI tD ff dd NN = Inr dydt"
  shows "sum_list dydt = - (dd / tD) * y ! 4"
proof -
  from assms obtain S E Ip Ia Is R where y: "y = [S, E, Ip, Ia, Is, R]"
    and nz: "NN \<noteq> 0" "tE \<noteq> 0" "tP \<noteq> 0" "tI \<noteq> 0" "tD \<noteq> 0"
    by (rule SEIR_Inr_six)
  from assms nz have "dydt = [- (S / NN) * (bP * Ip + bA * Ia + bS * Is),
                (S / NN) * (bP * Ip + bA * Ia + bS * Is) - (1 / tE) * E,
                (1 / tE) * E - (1 / tP) * Ip,
                (ff / tP) * Ip - (1 / tI) * Ia,
                ((1 - ff) / tP) * Ip - ((1 - dd) / tI) * Is - (dd / tD) * Is,
                (1 / tI) * Ia + ((1 - dd) / tI) * Is]"
    by (simp add: y SEIR_six)
  then show ?thesis
    by (simp add: y algebra_simps diff_divide_distrib add_divide_distrib)
qed

lemma trajectory_at:
  assumes "trajectory p Y a b" "a \<le> t" "t \<le> b"
  shows "Y t = [Y t ! 0, Y t ! 1, Y t ! 2, Y t ! 3, Y t ! 4, Y t ! 5]"
    and "N p \<noteq> 0" and "tauE p \<noteq> 0" and "tauP p \<noteq> 0" and "tauI p \<noteq> 0" and "tauD p \<noteq> 0"
    and "((\<lambda>s. Y s ! 0) has_real_derivative
           - (Y t ! 0 / N p) * (betaP p * Y t ! 2 + betaA p * Y t ! 3 + betaS p * Y t ! 4)) (at t)"
    and "((\<lambda>s. Y s ! 1) has_real_derivative
           (Y t ! 0 / N p) * (betaP p * Y t ! 2 + betaA p * Y t ! 3 + betaS p * Y t ! 4)
             - (1 / tauE p) * Y t ! 1) (at t)"
    and "((\<lambda>s. Y s ! 2) has_real_derivative (1 / tauE p) * Y t ! 1 - (1 / tauP p) * Y t ! 2) (at t)"
    and "((\<lambda>s. Y s ! 3) has_real_derivative (f p / tauP p) * Y t ! 2 - (1 / tauI p) * Y t ! 3) (at t)"
    and "((\<lambda>s. Y s ! 4) has_real_derivative
           ((1 - f p) / tauP p) * Y t ! 2 - ((1 - d p) / tauI p) * Y t ! 4 - (d p / tauD p) * Y t ! 4) (at t)"
    and "((\<lambda>s. Y s ! 5) has_real_derivative
           (1 / tauI p) * Y t ! 3 + ((1 - d p) / tauI p) * Y t ! 4) (at t)"
proof -
  from assms obtain dydt where ret: "SEIR_args p (Y t) t = Inr dydt"
    and der: "\<And>i. i < 6 \<Longrightarrow> ((\<lambda>s. Y s ! i) has_real_derivative dydt ! i) (at t)"
    unfolding trajectory_def by blast
  from ret obtain S E Ip Ia Is R where y: "Y t = [S, E, Ip, Ia, Is, R]"
    and nz: "N p \<noteq> 0" "tauE p \<noteq> 0" "tauP p \<noteq> 0" "tauI p \<noteq> 0" "tauD p \<noteq> 0"
    unfolding SEIR_args_def by (rule SEIR_Inr_six)
  show "Y t = [Y t ! 0, Y t ! 1, Y t ! 2, Y t ! 3, Y t ! 4, Y t ! 5]"
    by (simp add: y)
  show "N p \<noteq> 0" "tauE p \<noteq> 0" "tauP p \<noteq> 0" "tauI p \<noteq> 0" "tauD p \<noteq> 0"
    by (rule nz)+
  from ret nz have dydt: "dydt = [- (S / N p) * (betaP p * Ip + betaA p * Ia + betaS p * Is),
                (S / N p) * (betaP p * Ip + betaA p * Ia + betaS p * Is) - (1 / tauE p) * E,
                (1 / tauE p) * E - (1 / tauP p) * Ip,
                (f p / tauP p) * Ip - (1 / tauI p) * Ia,
                ((1 - f p) / tauP p) * Ip - ((1 - d p) / tauI p) * Is - (d p / tauD p) * Is,
                (1 / tauI p) * Ia + ((1 - d p) / tauI p) * Is]"
    by (simp add: y SEIR_args_def SEIR_six)
  show "((\<lambda>s. Y s ! 0) has_real_derivative
           - (Y t ! 0 / N p) * (betaP p * Y t ! 2 + betaA p * Y t ! 3 + betaS p * Y t ! 4)) (at t)"
    using der [of 0] by (simp add: dydt y)
  show "((\<lambda>s. Y s ! 1) has_real_derivative
           (Y t ! 0 / N p) * (betaP p * Y t ! 2 + betaA p * Y t ! 3 + betaS p * Y t ! 4)
             - (1 / tauE p) * Y t ! 1) (at t)"
    using der [of 1] by (simp add: dydt y)
  show "((\<lambda>s. Y s ! 2) has_real_derivative (1 / tauE p) * Y t ! 1 - (1 / tauP p) * Y t ! 2) (at t)"
    using der [of 2] by (simp add: dydt y)
  show "((\<lambda>s. Y s ! 3) has_real_derivative (f p / tauP p) * Y t ! 2 - (1 / tauI p) * Y t ! 3) (at t)"
    using der [of 3] by (simp add: dydt y)
  show "((\<lambda>s. Y s ! 4) has_real_derivative
           ((1 - f p) / tauP p) * Y t ! 2 - ((1 - d p) / tauI p) * Y t ! 4 - (d p / tauD p) * Y t ! 4) (at t)"
    using der [of 4] by (simp add: dydt y)
  show "((\<lambda>s. Y s ! 5) has_real_derivative
           (1 / tauI p) * Y t ! 3 + ((1 - d p) / tauI p) * Y t ! 4) (at t)"
    using der [of 5] by (simp add: dydt y)
qed

lemma DERIV_zero_constant:
  fixes g :: "real \<Rightarrow> real"
  assumes "a \<le> t" and "\<And>x. a \<le> x \<Longrightarrow> x \<le> t \<Longrightarrow> (g has_real_derivative 0) (at x)"
  shows "g t = g a"
proof -
  have "g a \<le> g t"
    using assms by (intro DERIV_nonneg_imp_nondecreasing [of a t g]) auto
  moreover have "g t \<le> g a"
    using assms by (intro DERIV_nonpos_imp_nonincreasing [of a t g]) auto
  ultimately show ?thesis by simp
qed

lemma list6_sum:
  fixes y :: "real list"
  assumes "y = [y ! 0, y ! 1, y ! 2, y ! 3, y ! 4, y ! 5]"
  shows "sum_list y = y ! 0 + y ! 1 + y ! 2 + y ! 3 + y ! 4 + y ! 5"
proof -
  have "sum_list [y ! 0, y ! 1, y ! 2, y ! 3, y ! 4, y ! 5] = y ! 0 + y ! 1 + y ! 2 + y ! 3 + y ! 4 + y ! 5"
    by simp
  with assms show ?thesis by simp
qed

lemma trajectory_total_deriv:
  assumes traj: "trajectory p Y a b" and ab: "a \<le> x" "x \<le> b"
  shows "((\<lambda>s. Y s ! 0 + Y s ! 1 + Y s ! 2 + Y s ! 3 + Y s ! 4 + Y s ! 5)
            has_real_derivative - (d p / tauD p) * Y x ! 4) (at x)"
proof -
  note d = trajectory_at(7-12) [OF traj ab]
  show ?thesis
    by (rule DERIV_cong [OF DERIV_add [OF DERIV_add [OF DERIV_add [OF DERIV_add [OF DERIV_add
          [OF d(1) d(2)] d(3)] d(4)] d(5)] d(6)]])
      (simp add: algebra_simps diff_divide_distrib add_divide_distrib)
qed

lemma trajectory_removed_mono:
  assumes traj: "trajectory p Y a b" and "a \<le> s" "s \<le> t" "t \<le> b"
    and pos: "0 < tauI p" "0 \<le> d p" "d p \<le> 1"
    and nonneg: "\<And>x. a \<le> x \<Longrightarrow> x \<le> b \<Longrightarrow> 0 \<le> Y x ! 3 \<and> 0 \<le> Y x ! 4"
  shows "Y s ! 5 \<le> Y t ! 5"
proof (rule DERIV_nonneg_imp_nondecreasing [OF \<open>s \<le> t\<close>])
  fix x assume x: "s \<le> x" "x \<le> t"
  then have ab: "a \<le> x" "x \<le> b" using assms by auto
  have "0 \<le> (1 / tauI p) * Y x ! 3 + ((1 - d p) / tauI p) * Y x ! 4"
    using pos nonneg [OF ab] by simp
  with trajectory_at(12) [OF traj ab]
  show "\<exists>y. ((\<lambda>s. Y s ! 5) has_real_derivative y) (at x) \<and> 0 \<le> y" by blast
qed

lemma trajectory_const:
  assumes "N p \<noteq> 0" "tauE p \<noteq> 0" "tauP p \<noteq> 0" "tauI p \<noteq> 0" "tauD p \<noteq> 0"
  shows "trajectory p (\<lambda>t. [S0, 0, 0, 0, 0, R0]) a b"
  unfolding trajectory_def
proof (intro allI impI exI conjI)
  fix t :: real
  show "SEIR_args p [S0, 0, 0, 0, 0, R0] t = Inr [0, 0, 0, 0, 0, 0]"
    using assms by (simp add: SEIR_args_def SEIR_six)
  fix i :: nat
  assume "i < 6"
  then show "((\<lambda>s. [S0, 0, 0, 0, 0, R0] ! i) has_real_derivative [0, 0, 0, 0, 0, 0] ! i) (at t)"
    by (simp add: nth_Cons')
qed

lemma decay_zero:
  fixes w :: "real \<Rightarrow> real"
  assumes "a \<le> t"
    and der: "\<And>x. a \<le> x \<Longrightarrow> x \<le> t \<Longrightarrow> \<exists>w'. (w has_real_derivative w') (at x) \<and> w' \<le> K * w x"
    and start: "w a = 0"
  shows "w t \<le> 0"
proof -
  let ?g = "\<lambda>x. w x * exp (- K * x)"
  have "?g t \<le> ?g a"
  proof (rule DERIV_nonpos_imp_nonincreasing [OF \<open>a \<le> t\<close>])
    fix x assume x: "a \<le> x" "x \<le> t"
    from der [OF x] obtain w' where w': "(w has_real_derivative w') (at x)" and le: "w' \<le> K * w x"
      by blast
    have "(?g has_real_derivative (w' - K * w x) * exp (- K * x)) (at x)"
      by (auto intro!: derivative_eq_intros w' simp: algebra_simps)
    moreover have "(w' - K * w x) * exp (- K * x) \<le> 0"
      using le by (intro mult_nonpos_nonneg) simp_all
    ultimately show "\<exists>y. (?g has_real_derivative y) (at x) \<and> y \<le> 0"
      by auto
  qed
  then have "w t * exp (- K * t) \<le> 0"
    by (simp add: start)
  then show ?thesis
    by (simp add: mult_le_0_iff not_le)
qed

lemma product_le:
  fixes u v w k :: real
  assumes "u\<^sup>2 \<le> w" "v\<^sup>2 \<le> w"
  shows "k * (u * v) \<le> \<bar>k\<bar> * w"
proof -
  have "0 \<le> (\<bar>u\<bar> - \<bar>v\<bar>)\<^sup>2" by simp
  then have "2 * (\<bar>u\<bar> * \<bar>v\<bar>) \<le> u\<^sup>2 + v\<^sup>2"
    by (simp add: power2_diff)
  with assms have "\<bar>u * v\<bar> \<le> w"
    by (simp add: abs_mult)
  then have "\<bar>k\<bar> * \<bar>u * v\<bar> \<le> \<bar>k\<bar> * w"
    by (intro mult_left_mono) simp_all
  moreover have "k * (u * v) \<le> \<bar>k * (u * v)\<bar>" by simp
  ultimately show ?thesis by (simp add: abs_mult)
qed

lemma product_le_bounded:
  fixes u v w c C k :: real
  assumes "u\<^sup>2 \<le> w" "v\<^sup>2 \<le> w" "\<bar>c\<bar> \<le> C"
  shows "c * k * (u * v) \<le> C * \<bar>k\<bar> * w"
proof -
  have "0 \<le> w" using assms(1) zero_le_power2 [of u] by linarith
  have "c * k * (u * v) \<le> \<bar>c * k\<bar> * w"
    by (rule product_le [OF assms(1,2)])
  also have "\<bar>c * k\<bar> * w \<le> C * \<bar>k\<bar> * w"
    using assms(3) \<open>0 \<le> w\<close> by (simp add: abs_mult mult_right_mono)
  finally show ?thesis .
qed

lemma energy_bound:
  fixes c C E P A I bp ba bs kE kP kf kI kg kr kd :: real
  assumes "\<bar>c\<bar> \<le> C"
  shows "2 * E * (c * (bp * P + ba * A + bs * I) - kE * E) + 2 * P * (kE * E - kP * P)
           + 2 * A * (kf * P - kI * A) + 2 * I * (kg * P - kr * I - kd * I)
         \<le> 2 * (C * \<bar>bp\<bar> + C * \<bar>ba\<bar> + C * \<bar>bs\<bar> + \<bar>kE\<bar> + \<bar>kE\<bar> + \<bar>kP\<bar> + \<bar>kf\<bar> + \<bar>kI\<bar>
                   + \<bar>kg\<bar> + \<bar>kr\<bar> + \<bar>kd\<bar>) * (E\<^sup>2 + P\<^sup>2 + A\<^sup>2 + I\<^sup>2)"
proof -
  define w where "w = E\<^sup>2 + P\<^sup>2 + A\<^sup>2 + I\<^sup>2"
  have sq: "E\<^sup>2 \<le> w" "P\<^sup>2 \<le> w" "A\<^sup>2 \<le> w" "I\<^sup>2 \<le> w"
    by (simp_all add: w_def)
  note b1 = product_le_bounded [OF sq(1) sq(2) assms, of bp]
  note b2 = product_le_bounded [OF sq(1) sq(3) assms, of ba]
  note b3 = product_le_bounded [OF sq(1) sq(4) assms, of bs]
  note b4 = product_le [OF sq(1) sq(1), of "- kE", unfolded abs_minus]
  note b5 = product_le [OF sq(2) sq(1), of kE]
  note b6 = product_le [OF sq(2) sq(2), of "- kP", unfolded abs_minus]
  note b7 = product_le [OF sq(3) sq(2), of kf]
  note b8 = product_le [OF sq(3) sq(3), of "- kI", unfolded abs_minus]
  note b9 = product_le [OF sq(4) sq(2), of kg]
  note b10 = product_le [OF sq(4) sq(4), of "- kr", unfolded abs_minus]
  note b11 = product_le [OF sq(4) sq(4), of "- kd", unfolded abs_minus]
  have lhs: "2 * E * (c * (bp * P + ba * A + bs * I) - kE * E) + 2 * P * (kE * E - kP * P)
           + 2 * A * (kf * P - kI * A) + 2 * I * (kg * P - kr * I - kd * I)
         = 2 * (c * bp * (E * P) + c * ba * (E * A) + c * bs * (E * I) + - kE * (E * E)
                + kE * (P * E) + - kP * (P * P) + kf * (A * P) + - kI * (A * A) + kg * (I * P)
                + - kr * (I * I) + - kd * (I * I))"
    by (simp add: algebra_simps)
  have rhs: "(C * \<bar>bp\<bar> + C * \<bar>ba\<bar> + C * \<bar>bs\<bar> + \<bar>kE\<bar> + \<bar>kE\<bar> + \<bar>kP\<bar> + \<bar>kf\<bar> + \<bar>kI\<bar>
                   + \<bar>kg\<bar> + \<bar>kr\<bar> + \<bar>kd\<bar>) * w
        = C * \<bar>bp\<bar> * w + C * \<bar>ba\<bar> * w + C * \<bar>bs\<bar> * w + \<bar>kE\<bar> * w + \<bar>kE\<bar> * w + \<bar>kP\<bar> * w
          + \<bar>kf\<bar> * w + \<bar>kI\<bar> * w + \<bar>kg\<bar> * w + \<bar>kr\<bar> * w + \<bar>kd\<bar> * w"
    by (simp add: distrib_right)
  have main: "c * bp * (E * P) + c * ba * (E * A) + c * bs * (E * I) + - kE * (E * E)
                + kE * (P * E) + - kP * (P * P) + kf * (A * P) + - kI * (A * A) + kg * (I * P)
                + - kr * (I * I) + - kd * (I * I)
        \<le> (C * \<bar>bp\<bar> + C * \<bar>ba\<bar> + C * \<bar>bs\<bar> + \<bar>kE\<bar> + \<bar>kE\<bar> + \<bar>kP\<bar> + \<bar>kf\<bar> + \<bar>kI\<bar>
                   + \<bar>kg\<bar> + \<bar>kr\<bar> + \<bar>kd\<bar>) * w"
    unfolding rhs using b1 b2 b3 b4 b5 b6 b7 b8 b9 b10 b11 by linarith
  have "2 * (c * bp * (E * P) + c * ba * (E * A) + c * bs * (E * I) + - kE * (E * E)
                + kE * (P * E) + - kP * (P * P) + kf * (A * P) + - kI * (A * A) + kg * (I * P)
                + - kr * (I * I) + - kd * (I * I))
        \<le> 2 * ((C * \<bar>bp\<bar> + C * \<bar>ba\<bar> + C * \<bar>bs\<bar> + \<bar>kE\<bar> + \<bar>kE\<bar> + \<bar>kP\<bar> + \<bar>kf\<bar> + \<bar>kI\<bar>
                   + \<bar>kg\<bar> + \<bar>kr\<bar> + \<bar>kd\<bar>) * w)"
    by (rule mult_left_mono [OF main]) simp
  then show ?thesis
    unfolding lhs w_def by (simp only: mult.assoc)
qed


lemma DERIV_square:
  fixes g :: "real \<Rightarrow> real"
  assumes "(g has_real_derivative g') (at x)"
  shows "((\<lambda>s. (g s)\<^sup>2) has_real_derivative 2 * g x * g') (at x)"
  using assms by (auto intro!: derivative_eq_intros)

lemma disease_free_infected_zero:
  assumes traj: "trajectory p Y a b" and ab: "a \<le> t" "t \<le> b"
    and start: "Y a ! 1 = 0" "Y a ! 2 = 0" "Y a ! 3 = 0" "Y a ! 4 = 0"
  shows "Y t ! 1 = 0 \<and> Y t ! 2 = 0 \<and> Y t ! 3 = 0 \<and> Y t ! 4 = 0"
proof -
  define w where "w = (\<lambda>x. (Y x ! 1)\<^sup>2 + (Y x ! 2)\<^sup>2 + (Y x ! 3)\<^sup>2 + (Y x ! 4)\<^sup>2)"
  have "a \<le> b" using ab by simp
  have "isCont (\<lambda>x. \<bar>Y x ! 0 / N p\<bar>) x" if "a \<le> x" "x \<le> b" for x
    using DERIV_isCont [OF DERIV_cdivide [OF trajectory_at(7) [OF traj that], of "N p"]]
    by (rule isCont_rabs)
  then have "\<forall>x. a \<le> x \<and> x \<le> b \<longrightarrow> isCont (\<lambda>x. \<bar>Y x ! 0 / N p\<bar>) x"
    by blast
  from isCont_bounded [OF \<open>a \<le> b\<close> this]
  obtain C where C: "\<And>x. a \<le> x \<Longrightarrow> x \<le> b \<Longrightarrow> \<bar>Y x ! 0 / N p\<bar> \<le> C"
    by blast
  define K where "K = 2 * (C * \<bar>betaP p\<bar> + C * \<bar>betaA p\<bar> + C * \<bar>betaS p\<bar> + \<bar>1 / tauE p\<bar>
      + \<bar>1 / tauE p\<bar> + \<bar>1 / tauP p\<bar> + \<bar>f p / tauP p\<bar> + \<bar>1 / tauI p\<bar> + \<bar>(1 - f p) / tauP p\<bar>
      + \<bar>(1 - d p) / tauI p\<bar> + \<bar>d p / tauD p\<bar>)"
  have der: "\<exists>w'. (w has_real_derivative w') (at x) \<and> w' \<le> K * w x" if x: "a \<le> x" "x \<le> t" for x
  proof -
    have xb: "x \<le> b" using x ab by simp
    note D = trajectory_at(8-11) [OF traj x(1) xb]
    let ?c = "Y x ! 0 / N p"
    let ?w' = "2 * Y x ! 1 * (?c * (betaP p * Y x ! 2 + betaA p * Y x ! 3 + betaS p * Y x ! 4)
                 - (1 / tauE p) * Y x ! 1)
               + 2 * Y x ! 2 * ((1 / tauE p) * Y x ! 1 - (1 / tauP p) * Y x ! 2)
               + 2 * Y x ! 3 * ((f p / tauP p) * Y x ! 2 - (1 / tauI p) * Y x ! 3)
               + 2 * Y x ! 4 * (((1 - f p) / tauP p) * Y x ! 2 - ((1 - d p) / tauI p) * Y x ! 4
                   - (d p / tauD p) * Y x ! 4)"
    have "(w has_real_derivative ?w') (at x)"
      unfolding w_def by (intro DERIV_add DERIV_square D)
    moreover have "?w' \<le> K * w x"
      unfolding K_def w_def by (rule energy_bound [OF C [OF x(1) xb]])
    ultimately show ?thesis by blast
  qed
  have "w a = 0" using start by (simp add: w_def)
  with der have "w t \<le> 0"
    using \<open>a \<le> t\<close> by (intro decay_zero [of a t w K]) auto
  moreover have "(Y t ! 1)\<^sup>2 \<le> w t" "(Y t ! 2)\<^sup>2 \<le> w t" "(Y t ! 3)\<^sup>2 \<le> w t" "(Y t ! 4)\<^sup>2 \<le> w t"
    by (simp_all add: w_def)
  ultimately have "(Y t ! 1)\<^sup>2 \<le> 0" "(Y t ! 2)\<^sup>2 \<le> 0" "(Y t ! 3)\<^sup>2 \<le> 0" "(Y t ! 4)\<^sup>2 \<le> 0"
    by linarith+
  then show ?thesis by simp
qed

lemma disease_free_constant:
  assumes traj: "trajectory p Y a b" and ab: "a \<le> t" "t \<le> b"
    and start: "Y a ! 1 = 0" "Y a ! 2 = 0" "Y a ! 3 = 0" "Y a ! 4 = 0"
  shows "Y t = Y a"
proof -
  have zero: "Y x ! 1 = 0 \<and> Y x ! 2 = 0 \<and> Y x ! 3 = 0 \<and> Y x ! 4 = 0" if "a \<le> x" "x \<le> t" for x
    using disease_free_infected_zero [OF traj that(1) _ start] that ab by simp
  have "((\<lambda>s. Y s ! 0) has_real_derivative 0) (at x)" if "a \<le> x" "x \<le> t" for x
    using trajectory_at(7) [OF traj that(1)] zero [OF that] that ab by simp
  then have S: "Y t ! 0 = Y a ! 0"
    using \<open>a \<le> t\<close> by (intro DERIV_zero_constant [of a t "\<lambda>s. Y s ! 0"]) auto
  have "((\<lambda>s. Y s ! 5) has_real_derivative 0) (at x)" if "a \<le> x" "x \<le> t" for x
    using trajectory_at(12) [OF traj that(1)] zero [OF that] that ab by simp
  then have R: "Y t ! 5 = Y a ! 5"
    using \<open>a \<le> t\<close> by (intro DERIV_zero_constant [of a t "\<lambda>s. Y s ! 5"]) auto
  have "a \<le> b" using ab by simp
  have "Y t = [Y t ! 0, Y t ! 1, Y t ! 2, Y t ! 3, Y t ! 4, Y t ! 5]"
    by (rule trajectory_at(1) [OF traj ab])
  also have "\<dots> = [Y a ! 0, Y a ! 1, Y a ! 2, Y a ! 3, Y a ! 4, Y a ! 5]"
    using zero [OF ab(1) order_refl] start S R by simp
  also have "\<dots> = Y a"
    by (rule trajectory_at(1) [OF traj order_refl \<open>a \<le> b\<close>, symmetric])
  finally show ?thesis .
qed

lemma trajectory_sum:
  assumes "trajectory p Y a b" "a \<le> x" "x \<le> b"
  shows "sum_list (Y x) = Y x ! 0 + Y x ! 1 + Y x ! 2 + Y x ! 3 + Y x ! 4 + Y x ! 5"
  by (rule list6_sum [OF trajectory_at(1) [OF assms]])

lemma trajectory_total_constant:
  assumes traj: "trajectory p Y a b" and ab: "a \<le> t" "t \<le> b"
    and none: "\<And>x. a \<le> x \<Longrightarrow> x \<le> b \<Longrightarrow> d p * Y x ! 4 = 0"
  shows "sum_list (Y t) = sum_list (Y a)"
proof -
  let ?T = "\<lambda>s. Y s ! 0 + Y s ! 1 + Y s ! 2 + Y s ! 3 + Y s ! 4 + Y s ! 5"
  have "(?T has_real_derivative 0) (at x)" if "a \<le> x" "x \<le> t" for x
  proof -
    have xb: "x \<le> b" using that ab by simp
    have eq: "- (d p / tauD p) * Y x ! 4 = 0"
      using none [OF that(1) xb] by auto
    show ?thesis
      using trajectory_total_deriv [OF traj that(1) xb] by (simp only: eq)
  qed
  then have "?T t = ?T a"
    using ab(1) by (intro DERIV_zero_constant [of a t ?T]) auto
  moreover have "a \<le> b" using ab by simp
  ultimately show ?thesis
    using trajectory_sum [OF traj ab] trajectory_sum [OF traj order_refl] by simp
qed

lemma trajectory_total_nonincreasing:
  assumes traj: "trajectory p Y a b" and st: "a \<le> s" "s \<le> t" "t \<le> b"
    and pos: "0 \<le> d p" "0 < tauD p"
    and nonneg: "\<And>x. a \<le> x \<Longrightarrow> x \<le> b \<Longrightarrow> 0 \<le> Y x ! 4"
  shows "sum_list (Y t) \<le> sum_list (Y s)"
proof -
  let ?T = "\<lambda>s. Y s ! 0 + Y s ! 1 + Y s ! 2 + Y s ! 3 + Y s ! 4 + Y s ! 5"
  have "?T t \<le> ?T s"
  proof (rule DERIV_nonpos_imp_nonincreasing [OF st(2)])
    fix x assume x: "s \<le> x" "x \<le> t"
    then have ab: "a \<le> x" "x \<le> b" using st by auto
    have "- (d p / tauD p) * Y x ! 4 \<le> 0"
      using pos nonneg [OF ab] by (simp add: mult_nonneg_nonneg)
    with trajectory_total_deriv [OF traj ab]
    show "\<exists>y. (?T has_real_derivative y) (at x) \<and> y \<le> 0" by blast
  qed
  moreover have "a \<le> t" "s \<le> b" using st by auto
  ultimately show ?thesis
    using trajectory_sum [OF traj \<open>a \<le> t\<close> st(3)] trajectory_sum [OF traj st(1) \<open>s \<le> b\<close>] by simp
qed

lemma notebook_trajectory:
  "trajectory notebook_params (\<lambda>t. [4900000, 0, 0, 0, 0, 0]) 0 70"
  by (rule trajectory_const) (simp_all add: notebook_params_def)

lemma decay_trajectory:
  "trajectory notebook_params
     (\<lambda>t. [0, 0, 0, 0, exp (- (11 / 40) * t), 4899999 + 76 / 77 * (1 - exp (- (11 / 40) * t))]) a b"
  unfolding trajectory_def
proof (intro allI impI exI conjI)
  fix t :: real
  show "SEIR_args notebook_params
          [0, 0, 0, 0, exp (- (11 / 40) * t), 4899999 + 76 / 77 * (1 - exp (- (11 / 40) * t))] t =
        Inr [0, 0, 0, 0, - (11 / 40) * exp (- (11 / 40) * t), 19 / 70 * exp (- (11 / 40) * t)]"
    by (simp add: SEIR_args_def SEIR_six notebook_params_def)
  fix i :: nat
  assume "i < 6"
  then consider "i = 0" | "i = 1" | "i = 2" | "i = 3" | "i = 4" | "i = 5"
    by linarith
  then show "((\<lambda>s. [0, 0, 0, 0, exp (- (11 / 40) * s), 4899999 + 76 / 77 * (1 - exp (- (11 / 40) * s))] ! i)
      has_real_derivative
        [0, 0, 0, 0, - (11 / 40) * exp (- (11 / 40) * t), 19 / 70 * exp (- (11 / 40) * t)] ! i) (at t)"
    by cases (auto intro!: derivative_eq_intros)
qed

subsection \<open>The matrices\<close>

lemma det_3: "det [[a0, a1, a2], [b0, b1, b2], [c0, c1, c2]] =
   a0 * (b1 * c2 - b2 * c1) - a1 * (b0 * c2 - b2 * c0) + a2 * (b0 * c1 - b1 * c0)"
  by (simp add: delete_col_def upt_rec algebra_simps)

lemma det_V_shape:
  "det [[a, 0, 0, 0], [b0, b1, 0, 0], [0, c1, c2, 0], [0, d1, 0, d3]] = a * b1 * c2 * d3"
  by (simp add: delete_col_def upt_rec)

lemma la_inv_V_shape:
  assumes "a \<noteq> 0" "b1 \<noteq> 0" "c2 \<noteq> 0" "d3 \<noteq> 0"
  shows "la_inv [[a, 0, 0, 0], [b0, b1, 0, 0], [0, c1, c2, 0], [0, d1, 0, d3]] =
     Inr [[1 / a, 0, 0, 0],
          [- b0 / (a * b1), 1 / b1, 0, 0],
          [b0 * c1 / (a * b1 * c2), - c1 / (b1 * c2), 1 / c2, 0],
          [b0 * d1 / (a * b1 * d3), - d1 / (b1 * d3), 0, 1 / d3]]"
  using assms
  by (simp add: la_inv_def square_def det_V_shape minor_def delete_col_def det_3 upt_rec
      field_simps del: det.simps)

lemma matmul_V_shape_inverse:
  assumes "a \<noteq> 0" "b1 \<noteq> 0" "c2 \<noteq> 0" "d3 \<noteq> 0"
  shows "matmul [[a, 0, 0, 0], [b0, b1, 0, 0], [0, c1, c2, 0], [0, d1, 0, d3]]
     [[1 / a, 0, 0, 0],
          [- b0 / (a * b1), 1 / b1, 0, 0],
          [b0 * c1 / (a * b1 * c2), - c1 / (b1 * c2), 1 / c2, 0],
          [b0 * d1 / (a * b1 * d3), - d1 / (b1 * d3), 0, 1 / d3]] =
     [[1, 0, 0, 0], [0, 1, 0, 0], [0, 0, 1, 0], [0, 0, 0, 1]]"
  using assms by (simp add: matmul_def upt_rec field_simps)

lemma matmul_F_shape:
  "matmul [[0, bp, ba, ba], [0, 0, 0, 0], [0, 0, 0, 0], [0, 0, 0, 0]]
          [[x00, x01, x02, x03], [x10, x11, x12, x13], [x20, x21, x22, x23], [x30, x31, x32, x33]] =
     [[bp * x10 + ba * x20 + ba * x30, bp * x11 + ba * x21 + ba * x31,
       bp * x12 + ba * x22 + ba * x32, bp * x13 + ba * x23 + ba * x33],
      [0, 0, 0, 0], [0, 0, 0, 0], [0, 0, 0, 0]]"
  by (simp add: matmul_def upt_rec)

lemma det_shift_row:
  "det (shift [[g0, g1, g2, g3], [0, 0, 0, 0], [0, 0, 0, 0], [0, 0, 0, 0]] x) =
     (g0 - x) * (0 - x) ^ 3"
  by (simp add: shift_def delete_col_def upt_rec power3_eq_cube)

lemma G_first_row:
  assumes "tauE p \<noteq> 0" "tauP p \<noteq> 0" "tauI p \<noteq> 0" "tauD p \<noteq> 0"
    and "(1 - d p) / tauI p + d p / tauD p \<noteq> 0"
  shows "\<exists>g1 g2 g3. G p = Inr [[R0_closed_form p, g1, g2, g3], [0, 0, 0, 0], [0, 0, 0, 0], [0, 0, 0, 0]]"
proof -
  let ?c = "(1 - d p) / tauI p + d p / tauD p"
  let ?v = "[[1 / tauE p, 0, 0, 0], [- 1 / tauE p, 1 / tauP p, 0, 0],
                [0, - f p / tauP p, 1 / tauI p, 0], [0, - (1 - f p) / tauP p, 0, ?c]]"
  let ?x10 = "- (- 1 / tauE p) / (1 / tauE p * (1 / tauP p))"
  let ?x20 = "(- 1 / tauE p) * (- f p / tauP p) / (1 / tauE p * (1 / tauP p) * (1 / tauI p))"
  let ?x30 = "(- 1 / tauE p) * (- (1 - f p) / tauP p) / (1 / tauE p * (1 / tauP p) * ?c)"
  have Vp: "V p = Inr ?v"
    using assms(1-4) by (simp add: V_def)
  have inv: "la_inv ?v =
     Inr [[1 / (1 / tauE p), 0, 0, 0],
          [?x10, 1 / (1 / tauP p), 0, 0],
          [?x20, - (- f p / tauP p) / (1 / tauP p * (1 / tauI p)), 1 / (1 / tauI p), 0],
          [?x30, - (- (1 - f p) / tauP p) / (1 / tauP p * ?c), 0, 1 / ?c]]"
    using assms by (intro la_inv_V_shape) simp_all
  have e1: "?x10 = tauP p"
    using assms by (simp add: field_simps)
  have e2: "?x20 = f p * tauI p"
    using assms by (simp add: field_simps)
  have e3: "?x30 = (1 - f p) / ?c"
    using assms(1,2) by (simp add: divide_simps)
  have "betaP p * ?x10 + betaA p * ?x20 + betaA p * ?x30 = R0_closed_form p"
    unfolding e1 e2 e3 by (simp add: R0_closed_form_def)
  then show ?thesis
    by (simp only: G_def Vp inv F_def matmul_F_shape sum.case) blast
qed

lemma is_eigvals_row_set:
  assumes "is_eigvals [[g0, g1, g2, g3], [0, 0, 0, 0], [0, 0, 0, 0], [0, 0, 0, 0]] ws"
  shows "set ws = {g0, 0}"
proof -
  have poly: "(g0 - x) * (0 - x) ^ 3 = prod_list (map (\<lambda>w. w - x) ws)" for x
    using assms det_shift_row [of g0 g1 g2 g3 x] by (simp add: is_eigvals_def)
  have zero_iff: "prod_list (map (\<lambda>w. w - x) ws) = 0 \<longleftrightarrow> x \<in> set ws" for x
    by (auto simp: prod_list_zero_iff)
  have "x \<in> set ws \<longleftrightarrow> x = g0 \<or> x = 0" for x
    using poly [of x] zero_iff [of x] by auto
  then show ?thesis by auto
qed

lemma is_eigvals_row: "is_eigvals [[g0, g1, g2, g3], [0, 0, 0, 0], [0, 0, 0, 0], [0, 0, 0, 0]] [g0, 0, 0, 0]"
  by (simp add: is_eigvals_def det_shift_row power3_eq_cube)

lemma np_max_eigenvalues:
  "np_max (take 1 [Array1 w, Array2 v]) = (if w = [] then Inl ValueError else Inr (Max (set w)))"
proof (cases w)
  case Nil
  then show ?thesis by (simp add: np_max_def)
next
  case (Cons x xs)
  then show ?thesis using Max.set_eq_fold [of x xs] by (simp add: np_max_def)
qed

lemma removal_rate_pos:
  assumes "0 < tauI p" "0 < tauD p" "0 \<le> d p" "d p \<le> 1"
  shows "0 < (1 - d p) / tauI p + d p / tauD p"
proof (cases "d p = 0")
  case True
  then show ?thesis using assms by simp
next
  case False
  then have "0 < d p / tauD p" using assms by simp
  moreover have "0 \<le> (1 - d p) / tauI p" using assms by simp
  ultimately show ?thesis by linarith
qed

lemma R0_closed_form_nonneg:
  assumes "0 < tauP p" "0 < tauI p" "0 < tauD p" "0 \<le> f p" "f p \<le> 1" "0 \<le> d p" "d p \<le> 1"
    and "0 \<le> betaP p" "0 \<le> betaA p"
  shows "0 \<le> R0_closed_form p"
proof -
  have "0 < (1 - d p) / tauI p + d p / tauD p"
    using assms by (intro removal_rate_pos)
  then have "0 \<le> betaA p * (1 - f p) / ((1 - d p) / tauI p + d p / tauD p)"
    using assms by (intro divide_nonneg_pos mult_nonneg_nonneg) simp_all
  moreover have "0 \<le> betaP p * tauP p" "0 \<le> betaA p * f p * tauI p"
    using assms by simp_all
  ultimately show ?thesis
    unfolding R0_closed_form_def by linarith
qed

lemma R0_closed_form_pos:
  assumes "0 < tauP p" "0 < tauI p" "0 < tauD p" "0 \<le> f p" "f p \<le> 1" "0 \<le> d p" "d p \<le> 1"
    and "0 < betaP p" "0 \<le> betaA p"
  shows "0 < R0_closed_form p"
proof -
  have "0 < (1 - d p) / tauI p + d p / tauD p"
    using assms by (intro removal_rate_pos)
  then have "0 \<le> betaA p * (1 - f p) / ((1 - d p) / tauI p + d p / tauD p)"
    using assms by (intro divide_nonneg_pos mult_nonneg_nonneg) simp_all
  moreover have "0 < betaP p * tauP p" "0 \<le> betaA p * f p * tauI p"
    using assms by simp_all
  ultimately show ?thesis
    unfolding R0_closed_form_def by linarith
qed

lemma diag_eig_row:
  "fst (diag_eig [[g0, g1, g2, g3], [0, 0, 0, 0], [0, 0, 0, 0], [0, 0, 0, 0]]) = [g0, 0, 0, 0]"
  by (simp add: diag_eig_def upt_rec)

lemma R_0_row:
  assumes g: "G p = Inr [[g0, g1, g2, g3], [0, 0, 0, 0], [0, 0, 0, 0], [0, 0, 0, 0]]"
    and eig: "eig_contract eig p"
  shows "set (fst (eig [[g0, g1, g2, g3], [0, 0, 0, 0], [0, 0, 0, 0], [0, 0, 0, 0]])) = {g0, 0}"
    and "R_0 eig p = Inr (max g0 0)"
proof -
  let ?g = "[[g0, g1, g2, g3], [0, 0, 0, 0], [0, 0, 0, 0], [0, 0, 0, 0]]"
  obtain w v where wv: "eig ?g = (w, v)" by (cases "eig ?g")
  have "is_eigvals ?g w" using eig g wv by (auto simp: eig_contract_def)
  then have w: "set w = {g0, 0}" by (rule is_eigvals_row_set)
  then show "set (fst (eig ?g)) = {g0, 0}" by (simp add: wv)
  have "w \<noteq> []" using w by auto
  moreover have "Max {g0, 0} = max g0 0" by simp
  ultimately have "(if w = [] then Inl ValueError else Inr (Max (set w))) = Inr (max g0 0)"
    by (simp add: w)
  moreover have "R_0 eig p = np_max (take 1 [Array1 w, Array2 v])"
    by (simp only: R_0_def g wv sum.case prod.case)
  ultimately show "R_0 eig p = Inr (max g0 0)"
    by (simp only: np_max_eigenvalues)
qed

lemma G_notebook:
  "G notebook_params = Inr [[1121 / 275, 1121 / 275, 14 / 5, 32 / 11], [0, 0, 0, 0], [0, 0, 0, 0], [0, 0, 0, 0]]"
  by (simp add: G_def V_def F_def notebook_params_def la_inv_V_shape matmul_F_shape)




lemma V_shape_inverse:
  assumes "tauE p \<noteq> 0" "tauP p \<noteq> 0" "tauI p \<noteq> 0" "tauD p \<noteq> 0"
    and "(1 - d p) / tauI p + d p / tauD p \<noteq> 0"
  shows "\<exists>v vinv. V p = Inr v \<and>
     det v = (1 / tauE p) * (1 / tauP p) * (1 / tauI p) * ((1 - d p) / tauI p + d p / tauD p) \<and>
     la_inv v = Inr vinv \<and> matmul v vinv = [[1, 0, 0, 0], [0, 1, 0, 0], [0, 0, 1, 0], [0, 0, 0, 1]] \<and>
     G p = Inr (matmul (F p) vinv)"
proof -
  let ?c = "(1 - d p) / tauI p + d p / tauD p"
  let ?v = "[[1 / tauE p, 0, 0, 0], [- 1 / tauE p, 1 / tauP p, 0, 0],
                [0, - f p / tauP p, 1 / tauI p, 0], [0, - (1 - f p) / tauP p, 0, ?c]]"
  have nz: "1 / tauE p \<noteq> 0" "1 / tauP p \<noteq> 0" "1 / tauI p \<noteq> 0" "?c \<noteq> 0"
    using assms by simp_all
  have Vp: "V p = Inr ?v"
    using assms(1-4) by (simp add: V_def)
  note inv = la_inv_V_shape [OF nz, of "- 1 / tauE p" "- f p / tauP p" "- (1 - f p) / tauP p"]
  note mm = matmul_V_shape_inverse [OF nz, of "- 1 / tauE p" "- f p / tauP p" "- (1 - f p) / tauP p"]
  have "G p = Inr (matmul (F p) (projr (la_inv ?v)))"
    by (simp only: G_def Vp inv sum.case sum.sel)
  then show ?thesis
    using Vp inv mm det_V_shape [of "1 / tauE p" "- 1 / tauE p" "1 / tauP p" "- f p / tauP p" "1 / tauI p" "- (1 - f p) / tauP p" ?c]
    by (simp only: sum.sel) blast
qed

lemma G_row_params:
  assumes "0 < tauE p" "0 < tauP p" "0 < tauI p" "0 < tauD p" "0 \<le> d p" "d p \<le> 1"
  shows "\<exists>g1 g2 g3. G p = Inr [[R0_closed_form p, g1, g2, g3], [0, 0, 0, 0], [0, 0, 0, 0], [0, 0, 0, 0]]"
proof -
  have "0 < (1 - d p) / tauI p + d p / tauD p"
    using assms by (intro removal_rate_pos)
  with assms show ?thesis
    by (intro G_first_row) simp_all
qed

lemma length_six:
  assumes "length (y :: real list) = 6"
  obtains y0 y1 y2 y3 y4 y5 where "y = [y0, y1, y2, y3, y4, y5]"
  using assms by (auto simp: numeral_eq_Suc length_Suc_conv)

lemma SEIR_args_accepts:
  assumes "N p \<noteq> 0" "tauE p \<noteq> 0" "tauP p \<noteq> 0" "tauI p \<noteq> 0" "tauD p \<noteq> 0"
    and "length y = 6"
  shows "\<exists>dydt. SEIR_args p y t = Inr dydt \<and> length dydt = 6"
proof -
  from \<open>length y = 6\<close> obtain y0 y1 y2 y3 y4 y5 where "y = [y0, y1, y2, y3, y4, y5]"
    by (rule length_six)
  with assms(1-5) show ?thesis
    by (simp add: SEIR_args_def SEIR_six)
qed

lemma euler_from_runs:
  assumes "N p \<noteq> 0" "tauE p \<noteq> 0" "tauP p \<noteq> 0" "tauI p \<noteq> 0" "tauD p \<noteq> 0"
  shows "length y = 6 \<Longrightarrow>
    \<exists>rows. euler_from (SEIR_args p) y s ts = Inr (y # rows) \<and> length rows = length ts"
proof (induction ts arbitrary: y s)
  case Nil
  then show ?case by simp
next
  case (Cons s' ts)
  from SEIR_args_accepts [OF assms Cons.prems, of s]
  obtain dydt where dydt: "SEIR_args p y s = Inr dydt" "length dydt = 6"
    by blast
  let ?y' = "map2 (\<lambda>v w. v + (s' - s) * w) y dydt"
  have "length ?y' = 6"
    using Cons.prems dydt(2) by simp
  from Cons.IH [OF this, of s']
  obtain rows where "euler_from (SEIR_args p) ?y' s' ts = Inr (?y' # rows)" "length rows = length ts"
    by blast
  then show ?case
    by (simp add: dydt(1))
qed

section \<open>The claims\<close>

text \<open>
  C3: for every state \<open>(S, E, Ip, Ia, Is, R)\<close> and every parameter set, \<open>SEIR\<close> returns
  exactly the six right-hand sides
  \<open>dS/dt = - (S/N) (\<beta>p Ip + \<beta>a Ia + \<beta>s Is)\<close>,
  \<open>dE/dt = (S/N) (\<beta>p Ip + \<beta>a Ia + \<beta>s Is) - E/\<tau>E\<close>,
  \<open>dIp/dt = E/\<tau>E - Ip/\<tau>P\<close>,
  \<open>dIa/dt = f Ip/\<tau>P - Ia/\<tau>I\<close>,
  \<open>dIs/dt = (1 - f) Ip/\<tau>P - (1 - d) Is/\<tau>I - d Is/\<tau>D\<close>,
  \<open>dR/dt = Ia/\<tau>I + (1 - d) Is/\<tau>I\<close>.
  The population size and the four durations are the divisors of these expressions; they
  are not zero in a parameter set, and with one of them zero the call raises.
\<close>

theorem SEIR_right_hand_sides:
  assumes "NN \<noteq> 0" "tE \<noteq> 0" "tP \<noteq> 0" "tI \<noteq> 0" "tD \<noteq> 0"
  shows "SEIR [S, E, Ip, Ia, Is, R] t bP bA bS tE tP tI tD ff dd NN =
     Inr [- (S / NN) * (bP * Ip + bA * Ia + bS * Is),
          (S / NN) * (bP * Ip + bA * Ia + bS * Is) - E / tE,
          E / tE - Ip / tP,
          ff * Ip / tP - Ia / tI,
          (1 - ff) * Ip / tP - (1 - dd) * Is / tI - dd * Is / tD,
          Ia / tI + (1 - dd) * Is / tI]"
  using assms by (rule SEIR_rhs)

theorem SEIR_right_hand_sides_witness:
  "(4900000 :: real) \<noteq> 0 \<and> (35 / 10 :: real) \<noteq> 0 \<and> (15 / 10 :: real) \<noteq> 0 \<and> (14 :: real) \<noteq> 0 \<and>
   SEIR [4900000, 1, 0, 0, 0, 0] 0 (8 / 10) (8 / 10) (8 / 10) (35 / 10) (15 / 10) (35 / 10) 14
        (3 / 10) (5 / 100) 4900000 = Inr [0, - (2 / 7), 2 / 7, 0, 0, 0]"
  using SEIR_right_hand_sides [where NN = 4900000 and tE = "35 / 10" and tP = "15 / 10"
      and tI = "35 / 10" and tD = 14 and S = 4900000 and E = 1 and Ip = 0 and Ia = 0 and Is = 0
      and R = 0 and t = 0 and bP = "8 / 10" and bA = "8 / 10" and bS = "8 / 10"
      and ff = "3 / 10" and dd = "5 / 100"]
  by simp

text \<open>
  C1, as stated: the six components of the derivative sum to 0, so the total
  \<open>S + E + Ip + Ia + Is + R\<close> stays equal to \<open>N\<close>. With the notebook's parameters and one
  symptomatic person in a population of \<open>N\<close> the components sum to \<open>- 1/280\<close>; and the
  trajectory that starts with one symptomatic person and \<open>N - 1\<close> removed ones has the
  total \<open>N\<close> at time 0 and less than \<open>N\<close> at time 70.
\<close>

theorem SEIR_sum_counterexample:
  "sum_list [4899999, 0, 0, 0, 1, 0] = N notebook_params \<and>
   SEIR_args notebook_params [4899999, 0, 0, 0, 1, 0] 0 =
     Inr [- (4899999 / 6125000), 4899999 / 6125000, 0, 0, - (11 / 40), 19 / 70] \<and>
   sum_list [- (4899999 / 6125000), 4899999 / 6125000, 0, 0, - (11 / 40), 19 / 70] = (- (1 / 280) :: real) \<and>
   trajectory notebook_params
     (\<lambda>t. [0, 0, 0, 0, exp (- (11 / 40) * t), 4899999 + 76 / 77 * (1 - exp (- (11 / 40) * t))]) 0 70 \<and>
   sum_list [0, 0, 0, 0, exp (- (11 / 40) * 0), 4899999 + 76 / 77 * (1 - exp (- (11 / 40) * 0))]
     = N notebook_params \<and>
   sum_list [0, 0, 0, 0, exp (- (11 / 40) * 70), 4899999 + 76 / 77 * (1 - exp (- (11 / 40) * 70))]
     < N notebook_params"
proof -
  define X :: real where "X = exp (- (77 / 4))"
  have lt: "X < 1" by (simp add: X_def)
  have eq: "sum_list [0, 0, 0, 0, exp (- (11 / 40) * 70), 4899999 + 76 / 77 * (1 - exp (- (11 / 40) * 70))]
      = X + (4899999 + 76 / 77 * (1 - X))"
    by (simp add: X_def)
  have Nv: "N notebook_params = 4900000"
    by (simp add: notebook_params_def)
  have "X + (4899999 + 76 / 77 * (1 - X)) < 4900000"
    using lt by (simp add: field_simps)
  then have "sum_list [0, 0, 0, 0, exp (- (11 / 40) * 70),
      4899999 + 76 / 77 * (1 - exp (- (11 / 40) * 70))] < N notebook_params"
    by (simp only: eq Nv)
  moreover have "sum_list [0, 0, 0, 0, exp (- (11 / 40) * 0), 4899999 + 76 / 77 * (1 - exp (- (11 / 40) * 0))]
     = N notebook_params"
    by (simp add: notebook_params_def)
  moreover have "sum_list [4899999, 0, 0, 0, 1, 0] = N notebook_params \<and>
   SEIR_args notebook_params [4899999, 0, 0, 0, 1, 0] 0 =
     Inr [- (4899999 / 6125000), 4899999 / 6125000, 0, 0, - (11 / 40), 19 / 70] \<and>
   sum_list [- (4899999 / 6125000), 4899999 / 6125000, 0, 0, - (11 / 40), 19 / 70] = (- (1 / 280) :: real)"
    by (simp add: SEIR_args_def SEIR_six notebook_params_def)
  ultimately show ?thesis
    using decay_trajectory [of 0 70] by blast
qed

text \<open>
  C1, amended: the six components of the derivative returned by \<open>SEIR\<close> sum to
  \<open>- (d/\<tau>D) Is\<close>, the deaths, which leave \<open>Is\<close> and enter no compartment. Along a
  trajectory the total \<open>S + E + Ip + Ia + Is + R\<close> stays what it was at the start as long
  as \<open>d Is = 0\<close>, and never increases when \<open>d \<ge> 0\<close>, \<open>\<tau>D > 0\<close> and \<open>Is \<ge> 0\<close>.
\<close>

theorem SEIR_sum_death_outflow:
  "(NN \<noteq> 0 \<and> tE \<noteq> 0 \<and> tP \<noteq> 0 \<and> tI \<noteq> 0 \<and> tD \<noteq> 0 \<longrightarrow>
      (\<exists>dydt. SEIR [S, E, Ip, Ia, Is, R] t bP bA bS tE tP tI tD ff dd NN = Inr dydt \<and>
         sum_list dydt = - (dd / tD) * Is))
   \<and> (trajectory p Y a b \<and> a \<le> t \<and> t \<le> b \<and> (\<forall>x. a \<le> x \<and> x \<le> b \<longrightarrow> d p * Y x ! 4 = 0) \<longrightarrow>
        sum_list (Y t) = sum_list (Y a))
   \<and> (trajectory p Y a b \<and> a \<le> s \<and> s \<le> t \<and> t \<le> b \<and> 0 \<le> d p \<and> 0 < tauD p \<and>
        (\<forall>x. a \<le> x \<and> x \<le> b \<longrightarrow> 0 \<le> Y x ! 4) \<longrightarrow>
        sum_list (Y t) \<le> sum_list (Y s))"
proof (intro conjI impI)
  assume nz: "NN \<noteq> 0 \<and> tE \<noteq> 0 \<and> tP \<noteq> 0 \<and> tI \<noteq> 0 \<and> tD \<noteq> 0"
  then have "SEIR [S, E, Ip, Ia, Is, R] t bP bA bS tE tP tI tD ff dd NN =
     Inr [- (S / NN) * (bP * Ip + bA * Ia + bS * Is),
          (S / NN) * (bP * Ip + bA * Ia + bS * Is) - E / tE,
          E / tE - Ip / tP,
          ff * Ip / tP - Ia / tI,
          (1 - ff) * Ip / tP - (1 - dd) * Is / tI - dd * Is / tD,
          Ia / tI + (1 - dd) * Is / tI]" (is "_ = Inr ?dydt")
    by (intro SEIR_rhs) simp_all
  moreover from this have "sum_list ?dydt = - (dd / tD) * [S, E, Ip, Ia, Is, R] ! 4"
    by (rule SEIR_sum)
  ultimately show "\<exists>dydt. SEIR [S, E, Ip, Ia, Is, R] t bP bA bS tE tP tI tD ff dd NN = Inr dydt \<and>
         sum_list dydt = - (dd / tD) * Is"
    by simp
next
  assume "trajectory p Y a b \<and> a \<le> t \<and> t \<le> b \<and> (\<forall>x. a \<le> x \<and> x \<le> b \<longrightarrow> d p * Y x ! 4 = 0)"
  then show "sum_list (Y t) = sum_list (Y a)"
    by (intro trajectory_total_constant [of p Y a b t]) auto
next
  assume "trajectory p Y a b \<and> a \<le> s \<and> s \<le> t \<and> t \<le> b \<and> 0 \<le> d p \<and> 0 < tauD p \<and>
        (\<forall>x. a \<le> x \<and> x \<le> b \<longrightarrow> 0 \<le> Y x ! 4)"
  then show "sum_list (Y t) \<le> sum_list (Y s)"
    by (intro trajectory_total_nonincreasing [of p Y a b s t]) auto
qed

theorem SEIR_sum_death_outflow_witness:
  "(\<exists>dydt. SEIR [4899999, 0, 0, 0, 1, 0] 0 (8 / 10) (8 / 10) (8 / 10) (35 / 10) (15 / 10) (35 / 10)
              14 (3 / 10) (5 / 100) 4900000 = Inr dydt \<and> sum_list dydt = - (1 / 280))
   \<and> trajectory notebook_params (\<lambda>t. [4900000, 0, 0, 0, 0, 0]) 0 70
   \<and> sum_list ((\<lambda>t. [4900000, 0, 0, 0, 0, 0 :: real]) (70 :: real)) = 4900000
   \<and> trajectory notebook_params
        (\<lambda>t. [0, 0, 0, 0, exp (- (11 / 40) * t), 4899999 + 76 / 77 * (1 - exp (- (11 / 40) * t))]) 0 70
   \<and> sum_list [0, 0, 0, 0, exp (- (11 / 40) * 70), 4899999 + 76 / 77 * (1 - exp (- (11 / 40) * 70))]
        \<le> sum_list [0, 0, 0, 0, exp (- (11 / 40) * 0), 4899999 + 76 / 77 * (1 - exp (- (11 / 40) * 0)) :: real]"
proof -
  let ?Y = "\<lambda>t :: real. [0, 0, 0, 0, exp (- (11 / 40) * t), 4899999 + 76 / 77 * (1 - exp (- (11 / 40) * t))]"
  let ?C = "\<lambda>t :: real. [4900000, 0, 0, 0, 0, 0 :: real]"
  have h1: "(4900000 :: real) \<noteq> 0 \<and> (35 / 10 :: real) \<noteq> 0 \<and> (15 / 10 :: real) \<noteq> 0 \<and>
      (35 / 10 :: real) \<noteq> 0 \<and> (14 :: real) \<noteq> 0"
    by simp
  have h2: "trajectory notebook_params ?C 0 70 \<and> (0 :: real) \<le> 70 \<and> (70 :: real) \<le> 70 \<and>
      (\<forall>x. 0 \<le> x \<and> x \<le> 70 \<longrightarrow> d notebook_params * ?C x ! 4 = 0)"
    using notebook_trajectory by simp
  have h3: "trajectory notebook_params ?Y 0 70 \<and> (0 :: real) \<le> 0 \<and> (0 :: real) \<le> 70 \<and>
      (70 :: real) \<le> 70 \<and> 0 \<le> d notebook_params \<and> 0 < tauD notebook_params \<and>
      (\<forall>x. 0 \<le> x \<and> x \<le> 70 \<longrightarrow> 0 \<le> ?Y x ! 4)"
    using decay_trajectory [of 0 70] by (simp add: notebook_params_def)
  note inst = SEIR_sum_death_outflow [where NN = 4900000 and tE = "35 / 10" and tP = "15 / 10"
      and tI = "35 / 10" and tD = 14 and S = 4899999 and E = 0 and Ip = 0 and Ia = 0 and Is = 1
      and R = 0 and bP = "8 / 10" and bA = "8 / 10" and bS = "8 / 10"
      and ff = "3 / 10" and dd = "5 / 100" and p = notebook_params and a = 0 and b = 70]
  have c1: "\<exists>dydt. SEIR [4899999, 0, 0, 0, 1, 0] 0 (8 / 10) (8 / 10) (8 / 10) (35 / 10) (15 / 10)
      (35 / 10) 14 (3 / 10) (5 / 100) 4900000 = Inr dydt \<and> sum_list dydt = - (1 / 280)"
    using inst [where t = 0, THEN conjunct1, THEN mp, OF h1] by simp
  have c2: "sum_list (?C 70) = sum_list (?C 0)"
    by (rule inst [where Y = ?C and t = 70, THEN conjunct2, THEN conjunct1, THEN mp, OF h2])
  have c3: "sum_list (?Y 70) \<le> sum_list (?Y 0)"
    by (rule inst [where Y = ?Y and s = 0 and t = 70, THEN conjunct2, THEN conjunct2, THEN mp, OF h3])
  show ?thesis
    using c1 c2 c3 h2 h3 by simp
qed


text \<open>
  C6: for every state with \<open>E = Ip = Ia = Is = 0\<close> and every parameter set, \<open>SEIR\<close>
  returns the all-zero derivative, so a trajectory started at such a state stays at it:
  the constant function is a trajectory, and every trajectory that starts there is
  constant.
\<close>

theorem disease_free_fixed_point:
  "(NN \<noteq> 0 \<and> tE \<noteq> 0 \<and> tP \<noteq> 0 \<and> tI \<noteq> 0 \<and> tD \<noteq> 0 \<longrightarrow>
      SEIR [S, 0, 0, 0, 0, R] t bP bA bS tE tP tI tD ff dd NN = Inr [0, 0, 0, 0, 0, 0])
   \<and> (N p \<noteq> 0 \<and> tauE p \<noteq> 0 \<and> tauP p \<noteq> 0 \<and> tauI p \<noteq> 0 \<and> tauD p \<noteq> 0 \<longrightarrow>
        trajectory p (\<lambda>t. [S, 0, 0, 0, 0, R]) a b)
   \<and> (trajectory p Y a b \<and> Y a = [S, 0, 0, 0, 0, R] \<and> a \<le> t \<and> t \<le> b \<longrightarrow>
        Y t = [S, 0, 0, 0, 0, R])"
proof (intro conjI impI)
  assume "NN \<noteq> 0 \<and> tE \<noteq> 0 \<and> tP \<noteq> 0 \<and> tI \<noteq> 0 \<and> tD \<noteq> 0"
  then show "SEIR [S, 0, 0, 0, 0, R] t bP bA bS tE tP tI tD ff dd NN = Inr [0, 0, 0, 0, 0, 0]"
    by (simp add: SEIR_six)
next
  assume "N p \<noteq> 0 \<and> tauE p \<noteq> 0 \<and> tauP p \<noteq> 0 \<and> tauI p \<noteq> 0 \<and> tauD p \<noteq> 0"
  then show "trajectory p (\<lambda>t. [S, 0, 0, 0, 0, R]) a b"
    by (intro trajectory_const) simp_all
next
  assume h: "trajectory p Y a b \<and> Y a = [S, 0, 0, 0, 0, R] \<and> a \<le> t \<and> t \<le> b"
  then have "Y t = Y a"
    by (intro disease_free_constant [of p Y a b t]) simp_all
  with h show "Y t = [S, 0, 0, 0, 0, R]" by simp
qed

theorem disease_free_fixed_point_witness:
  "SEIR [4900000, 0, 0, 0, 0, 0] 35 (8 / 10) (8 / 10) (8 / 10) (35 / 10) (15 / 10) (35 / 10) 14
        (3 / 10) (5 / 100) 4900000 = Inr [0, 0, 0, 0, 0, 0]
   \<and> trajectory notebook_params (\<lambda>t. [4900000, 0, 0, 0, 0, 0]) 0 70
   \<and> (\<lambda>t. [4900000, 0, 0, 0, 0, 0 :: real]) (35 :: real) = [4900000, 0, 0, 0, 0, 0]"
  using disease_free_fixed_point [where NN = 4900000 and tE = "35 / 10" and tP = "15 / 10"
      and tI = "35 / 10" and tD = 14 and S = 4900000 and R = 0 and t = 35 and bP = "8 / 10"
      and bA = "8 / 10" and bS = "8 / 10" and ff = "3 / 10" and dd = "5 / 100"
      and p = notebook_params and a = 0 and b = 70 and Y = "\<lambda>t. [4900000, 0, 0, 0, 0, 0]"]
  by (simp add: notebook_params_def)

text \<open>
  C7: for every state with \<open>Ia \<ge> 0\<close> and \<open>Is \<ge> 0\<close> and every parameter set with
  \<open>\<tau>I > 0\<close> and \<open>0 \<le> d \<le> 1\<close>, the \<open>R\<close> component of the derivative that \<open>SEIR\<close> returns
  is not negative, so along a trajectory on which \<open>Ia\<close> and \<open>Is\<close> are not negative the
  removed compartment does not decrease.
\<close>

theorem removed_nondecreasing:
  "(0 \<le> Ia \<and> 0 \<le> Is \<and> 0 < tI \<and> 0 \<le> dd \<and> dd \<le> 1 \<and> NN \<noteq> 0 \<and> tE \<noteq> 0 \<and> tP \<noteq> 0 \<and> tD \<noteq> 0 \<longrightarrow>
      (\<exists>dydt. SEIR [S, E, Ip, Ia, Is, R] t bP bA bS tE tP tI tD ff dd NN = Inr dydt \<and>
         0 \<le> dydt ! 5))
   \<and> (trajectory p Y a b \<and> a \<le> s \<and> s \<le> t \<and> t \<le> b \<and> 0 < tauI p \<and> 0 \<le> d p \<and> d p \<le> 1 \<and>
        (\<forall>x. a \<le> x \<and> x \<le> b \<longrightarrow> 0 \<le> Y x ! 3 \<and> 0 \<le> Y x ! 4) \<longrightarrow>
        Y s ! 5 \<le> Y t ! 5)"
proof (intro conjI impI)
  assume "0 \<le> Ia \<and> 0 \<le> Is \<and> 0 < tI \<and> 0 \<le> dd \<and> dd \<le> 1 \<and> NN \<noteq> 0 \<and> tE \<noteq> 0 \<and> tP \<noteq> 0 \<and> tD \<noteq> 0"
  then show "\<exists>dydt. SEIR [S, E, Ip, Ia, Is, R] t bP bA bS tE tP tI tD ff dd NN = Inr dydt \<and>
         0 \<le> dydt ! 5"
    by (simp add: SEIR_six)
next
  assume "trajectory p Y a b \<and> a \<le> s \<and> s \<le> t \<and> t \<le> b \<and> 0 < tauI p \<and> 0 \<le> d p \<and> d p \<le> 1 \<and>
        (\<forall>x. a \<le> x \<and> x \<le> b \<longrightarrow> 0 \<le> Y x ! 3 \<and> 0 \<le> Y x ! 4)"
  then show "Y s ! 5 \<le> Y t ! 5"
    by (intro trajectory_removed_mono [of p Y a b s t]) auto
qed

theorem removed_nondecreasing_witness:
  "(\<exists>dydt. SEIR [4899997, 0, 0, 1, 2, 0] 0 (8 / 10) (8 / 10) (8 / 10) (35 / 10) (15 / 10) (35 / 10)
              14 (3 / 10) (5 / 100) 4900000 = Inr dydt \<and> 0 \<le> dydt ! 5)
   \<and> trajectory notebook_params
        (\<lambda>t. [0, 0, 0, 0, exp (- (11 / 40) * t), 4899999 + 76 / 77 * (1 - exp (- (11 / 40) * t))]) 0 70
   \<and> [0, 0, 0, 0, exp (- (11 / 40) * 0), 4899999 + 76 / 77 * (1 - exp (- (11 / 40) * 0))] ! 5
        \<le> [0, 0, 0, 0, exp (- (11 / 40) * 70), 4899999 + 76 / 77 * (1 - exp (- (11 / 40) * 70)) :: real] ! 5"
proof -
  let ?Y = "\<lambda>t :: real. [0, 0, 0, 0, exp (- (11 / 40) * t), 4899999 + 76 / 77 * (1 - exp (- (11 / 40) * t))]"
  have h1: "(0 :: real) \<le> 1 \<and> (0 :: real) \<le> 2 \<and> (0 :: real) < 35 / 10 \<and> (0 :: real) \<le> 5 / 100 \<and>
      (5 / 100 :: real) \<le> 1 \<and> (4900000 :: real) \<noteq> 0 \<and> (35 / 10 :: real) \<noteq> 0 \<and>
      (15 / 10 :: real) \<noteq> 0 \<and> (14 :: real) \<noteq> 0"
    by simp
  have h2: "trajectory notebook_params ?Y 0 70 \<and> (0 :: real) \<le> 0 \<and> (0 :: real) \<le> 70 \<and>
      (70 :: real) \<le> 70 \<and> 0 < tauI notebook_params \<and> 0 \<le> d notebook_params \<and>
      d notebook_params \<le> 1 \<and> (\<forall>x. 0 \<le> x \<and> x \<le> 70 \<longrightarrow> 0 \<le> ?Y x ! 3 \<and> 0 \<le> ?Y x ! 4)"
    using decay_trajectory [of 0 70] by (simp add: notebook_params_def)
  note inst = removed_nondecreasing [where NN = 4900000 and tE = "35 / 10" and tP = "15 / 10"
      and tI = "35 / 10" and tD = 14 and S = 4899997 and E = 0 and Ip = 0 and Ia = 1 and Is = 2
      and R = 0 and bP = "8 / 10" and bA = "8 / 10" and bS = "8 / 10"
      and ff = "3 / 10" and dd = "5 / 100" and p = notebook_params and Y = ?Y and a = 0 and b = 70
      and s = 0]
  have c1: "\<exists>dydt. SEIR [4899997, 0, 0, 1, 2, 0] 0 (8 / 10) (8 / 10) (8 / 10) (35 / 10) (15 / 10)
      (35 / 10) 14 (3 / 10) (5 / 100) 4900000 = Inr dydt \<and> 0 \<le> dydt ! 5"
    by (rule inst [where t = 0, THEN conjunct1, THEN mp, OF h1])
  have c2: "?Y 0 ! 5 \<le> ?Y 70 ! 5"
    by (rule inst [where t = 70, THEN conjunct2, THEN mp, OF h2])
  show ?thesis
    using c1 c2 h2 by simp
qed


text \<open>
  C9: for every parameter set with strictly positive \<open>\<tau>E\<close>, \<open>\<tau>P\<close>, \<open>\<tau>I\<close>, \<open>\<tau>D\<close> and
  \<open>d\<close> in \<open>[0, 1]\<close>, the determinant of \<open>V\<close> is
  \<open>(1/\<tau>E) (1/\<tau>P) (1/\<tau>I) ((1 - d)/\<tau>I + d/\<tau>D)\<close> and is not zero, so the inversion
  succeeds (the matrix it returns multiplies \<open>V\<close> to the identity) and the cell that
  computes \<open>G\<close> raises nothing.
\<close>

theorem V_invertible:
  assumes "0 < tauE p" "0 < tauP p" "0 < tauI p" "0 < tauD p" "0 \<le> d p" "d p \<le> 1"
  shows "\<exists>v vinv. V p = Inr v \<and>
     det v = (1 / tauE p) * (1 / tauP p) * (1 / tauI p) * ((1 - d p) / tauI p + d p / tauD p) \<and>
     det v \<noteq> 0 \<and> la_inv v = Inr vinv \<and>
     matmul v vinv = [[1, 0, 0, 0], [0, 1, 0, 0], [0, 0, 1, 0], [0, 0, 0, 1]] \<and>
     G p = Inr (matmul (F p) vinv)"
proof -
  have c: "0 < (1 - d p) / tauI p + d p / tauD p"
    using assms by (intro removal_rate_pos)
  from assms c have "\<exists>v vinv. V p = Inr v \<and>
     det v = (1 / tauE p) * (1 / tauP p) * (1 / tauI p) * ((1 - d p) / tauI p + d p / tauD p) \<and>
     la_inv v = Inr vinv \<and> matmul v vinv = [[1, 0, 0, 0], [0, 1, 0, 0], [0, 0, 1, 0], [0, 0, 0, 1]] \<and>
     G p = Inr (matmul (F p) vinv)"
    by (intro V_shape_inverse) simp_all
  then obtain v vinv where v: "V p = Inr v"
    "det v = (1 / tauE p) * (1 / tauP p) * (1 / tauI p) * ((1 - d p) / tauI p + d p / tauD p)"
    "la_inv v = Inr vinv" "matmul v vinv = [[1, 0, 0, 0], [0, 1, 0, 0], [0, 0, 1, 0], [0, 0, 0, 1]]"
    "G p = Inr (matmul (F p) vinv)"
    by blast
  have "det v \<noteq> 0"
    using assms(1-4) c by (simp add: v(2))
  with v show ?thesis by blast
qed

theorem V_invertible_witness:
  "0 < tauE notebook_params \<and> 0 < tauP notebook_params \<and> 0 < tauI notebook_params \<and>
   0 < tauD notebook_params \<and> 0 \<le> d notebook_params \<and> d notebook_params \<le> 1 \<and>
   (\<exists>v vinv. V notebook_params = Inr v \<and> det v = 11 / 735 \<and> det v \<noteq> 0 \<and> la_inv v = Inr vinv \<and>
      matmul v vinv = [[1, 0, 0, 0], [0, 1, 0, 0], [0, 0, 1, 0], [0, 0, 0, 1]] \<and>
      G notebook_params = Inr (matmul (F notebook_params) vinv))"
proof -
  have h: "0 < tauE notebook_params" "0 < tauP notebook_params" "0 < tauI notebook_params"
    "0 < tauD notebook_params" "0 \<le> d notebook_params" "d notebook_params \<le> 1"
    by (simp_all add: notebook_params_def)
  have val: "(1 / tauE notebook_params) * (1 / tauP notebook_params) * (1 / tauI notebook_params) *
     ((1 - d notebook_params) / tauI notebook_params + d notebook_params / tauD notebook_params) = 11 / 735"
    by (simp add: notebook_params_def)
  from V_invertible [OF h] show ?thesis
    unfolding val using h by blast
qed

text \<open>
  C2: with \<open>\<beta>p = \<beta>a = \<beta>s = 0.8\<close>, \<open>\<tau>E = 3.5\<close>, \<open>\<tau>P = 1.5\<close>, \<open>\<tau>I = 3.5\<close>,
  \<open>\<tau>D = 14\<close>, \<open>f = 0.3\<close>, \<open>d = 0.05\<close> the computation of the reproduction number
  (\<open>G = F V\<^sup>-\<^sup>1\<close>, then the largest eigenvalue) yields a value within \<open>0.01\<close> of \<open>4.076\<close>:
  it is \<open>1121/275\<close>, whatever routine returns the eigenvalues of \<open>G\<close>.
\<close>

theorem R_0_notebook:
  assumes "eig_contract eig notebook_params"
  shows "R_0 eig notebook_params = Inr (1121 / 275) \<and> \<bar>1121 / 275 - 4076 / 1000\<bar> \<le> (1 / 100 :: real)"
  using R_0_row(2) [OF G_notebook assms] by simp

theorem R_0_notebook_witness:
  "eig_contract diag_eig notebook_params \<and>
   R_0 diag_eig notebook_params = Inr (1121 / 275) \<and> \<bar>1121 / 275 - 4076 / 1000\<bar> \<le> (1 / 100 :: real)"
proof -
  have h: "eig_contract diag_eig notebook_params"
    by (simp add: eig_contract_def G_notebook diag_eig_row is_eigvals_row)
  from R_0_notebook [OF h] h show ?thesis by blast
qed

text \<open>
  C4: for every parameter set with strictly positive durations, positive rates and
  \<open>f\<close>, \<open>d\<close> in \<open>[0, 1]\<close>, the output of the estimator is the largest of the eigenvalues
  of \<open>G = F V\<^sup>-\<^sup>1\<close>, wherever it stands in the list that the eigenvalue routine returns,
  and it is a real number that is not negative. Here \<open>V\<^sup>-\<^sup>1\<close> is the matrix \<open>vinv\<close> that
  the inversion returns, which multiplies \<open>V\<close> to the identity; the eigenvalues of
  \<open>F vinv\<close> are its first entry, which is positive, and \<open>0\<close>, and the output is that first
  entry. The rate \<open>\<beta>s\<close> is not read by the estimator and needs no condition.
\<close>

theorem R_0_largest_eigenvalue:
  assumes "0 < tauE p" "0 < tauP p" "0 < tauI p" "0 < tauD p"
    and "0 < betaP p" "0 < betaA p"
    and "0 \<le> f p" "f p \<le> 1" "0 \<le> d p" "d p \<le> 1"
    and eig: "eig_contract eig p"
  shows "\<exists>v vinv r.
           V p = Inr v \<and> la_inv v = Inr vinv \<and>
           matmul v vinv = [[1, 0, 0, 0], [0, 1, 0, 0], [0, 0, 1, 0], [0, 0, 0, 1]] \<and>
           G p = Inr (matmul (F p) vinv) \<and>
           is_eigvals (matmul (F p) vinv) (fst (eig (matmul (F p) vinv))) \<and>
           R_0 eig p = Inr r \<and>
           r \<in> set (fst (eig (matmul (F p) vinv))) \<and>
           (\<forall>w \<in> set (fst (eig (matmul (F p) vinv))). w \<le> r) \<and>
           r = matmul (F p) vinv ! 0 ! 0 \<and> r = R0_closed_form p \<and> 0 < r"
proof -
  have c: "0 < (1 - d p) / tauI p + d p / tauD p"
    using assms by (intro removal_rate_pos)
  from assms c have "\<exists>v vinv. V p = Inr v \<and>
     det v = (1 / tauE p) * (1 / tauP p) * (1 / tauI p) * ((1 - d p) / tauI p + d p / tauD p) \<and>
     la_inv v = Inr vinv \<and> matmul v vinv = [[1, 0, 0, 0], [0, 1, 0, 0], [0, 0, 1, 0], [0, 0, 0, 1]] \<and>
     G p = Inr (matmul (F p) vinv)"
    by (intro V_shape_inverse) simp_all
  then obtain v vinv where v: "V p = Inr v" "la_inv v = Inr vinv"
    "matmul v vinv = [[1, 0, 0, 0], [0, 1, 0, 0], [0, 0, 1, 0], [0, 0, 0, 1]]"
    and G1: "G p = Inr (matmul (F p) vinv)"
    by blast
  from assms obtain g1 g2 g3
    where g: "G p = Inr [[R0_closed_form p, g1, g2, g3], [0, 0, 0, 0], [0, 0, 0, 0], [0, 0, 0, 0]]"
    using G_row_params [of p] by blast
  let ?g = "[[R0_closed_form p, g1, g2, g3], [0, 0, 0, 0], [0, 0, 0, 0], [0, 0, 0, 0]]"
  let ?r = "R0_closed_form p"
  have gm: "matmul (F p) vinv = ?g"
    using G1 g by simp
  have pos: "0 < ?r"
    using assms by (intro R0_closed_form_pos) simp_all
  note r = R_0_row [OF g eig]
  have m0: "is_eigvals ?g (fst (eig ?g))"
    using eig g by (simp add: eig_contract_def)
  have m1: "?r \<in> set (fst (eig ?g))"
    unfolding r(1) by simp
  have m2: "\<forall>w \<in> set (fst (eig ?g)). w \<le> ?r"
    unfolding r(1) using pos by simp
  have m3: "R_0 eig p = Inr ?r"
    using r(2) pos by (simp add: max_def)
  have m4: "?r = ?g ! 0 ! 0" by simp
  have "V p = Inr v \<and> la_inv v = Inr vinv \<and>
           matmul v vinv = [[1, 0, 0, 0], [0, 1, 0, 0], [0, 0, 1, 0], [0, 0, 0, 1]] \<and>
           G p = Inr (matmul (F p) vinv) \<and>
           is_eigvals (matmul (F p) vinv) (fst (eig (matmul (F p) vinv))) \<and>
           R_0 eig p = Inr ?r \<and>
           ?r \<in> set (fst (eig (matmul (F p) vinv))) \<and>
           (\<forall>w \<in> set (fst (eig (matmul (F p) vinv))). w \<le> ?r) \<and>
           ?r = matmul (F p) vinv ! 0 ! 0 \<and> ?r = R0_closed_form p \<and> 0 < ?r"
    unfolding gm
    by (intro conjI v g m0 m1 m2 m3 m4 refl pos)
  then show ?thesis
    by (intro exI [of _ v] exI [of _ vinv] exI [of _ "R0_closed_form p"])
qed

theorem R_0_largest_eigenvalue_witness:
  "0 < tauE notebook_params \<and> 0 < tauP notebook_params \<and> 0 < tauI notebook_params \<and>
   0 < tauD notebook_params \<and> 0 < betaP notebook_params \<and> 0 < betaA notebook_params \<and>
   0 \<le> f notebook_params \<and> f notebook_params \<le> 1 \<and> 0 \<le> d notebook_params \<and>
   d notebook_params \<le> 1 \<and> eig_contract diag_eig notebook_params \<and>
   R0_closed_form notebook_params = 1121 / 275 \<and>
   (\<exists>v vinv r.
           V notebook_params = Inr v \<and> la_inv v = Inr vinv \<and>
           matmul v vinv = [[1, 0, 0, 0], [0, 1, 0, 0], [0, 0, 1, 0], [0, 0, 0, 1]] \<and>
           G notebook_params = Inr (matmul (F notebook_params) vinv) \<and>
           is_eigvals (matmul (F notebook_params) vinv)
             (fst (diag_eig (matmul (F notebook_params) vinv))) \<and>
           R_0 diag_eig notebook_params = Inr r \<and>
           r \<in> set (fst (diag_eig (matmul (F notebook_params) vinv))) \<and>
           (\<forall>w \<in> set (fst (diag_eig (matmul (F notebook_params) vinv))). w \<le> r) \<and>
           r = matmul (F notebook_params) vinv ! 0 ! 0 \<and> r = R0_closed_form notebook_params \<and> 0 < r)"
proof -
  have h: "eig_contract diag_eig notebook_params"
    by (simp add: eig_contract_def G_notebook diag_eig_row is_eigvals_row)
  have hyps: "0 < tauE notebook_params" "0 < tauP notebook_params" "0 < tauI notebook_params"
    "0 < tauD notebook_params" "0 < betaP notebook_params" "0 < betaA notebook_params"
    "0 \<le> f notebook_params" "f notebook_params \<le> 1"
    "0 \<le> d notebook_params" "d notebook_params \<le> 1"
    by (simp_all add: notebook_params_def)
  have c: "R0_closed_form notebook_params = 1121 / 275"
    by (simp add: R0_closed_form_def notebook_params_def)
  show ?thesis
    by (intro conjI hyps h c R_0_largest_eigenvalue [OF hyps h])
qed



text \<open>
  C10: for every parameter set with strictly positive durations and \<open>f\<close>, \<open>d\<close> in
  \<open>[0, 1]\<close>, the largest-eigenvalue computation over \<open>G = F V\<^sup>-\<^sup>1\<close> yields the closed form
  \<open>\<beta>p \<tau>P + \<beta>a f \<tau>I + \<beta>a (1 - f) / ((1 - d)/\<tau>I + d/\<tau>D)\<close>: only the first row of
  \<open>G\<close> is not zero, its first entry is the closed form, and the eigenvalues of \<open>G\<close> are
  that entry and \<open>0\<close> three times. The rates of a parameter set are positive; the
  theorem asks of \<open>\<beta>p\<close> and \<open>\<beta>a\<close> only that they are not negative.
\<close>

theorem R_0_closed_form_refinement:
  assumes "0 < tauE p" "0 < tauP p" "0 < tauI p" "0 < tauD p"
    and "0 \<le> betaP p" "0 \<le> betaA p"
    and "0 \<le> f p" "f p \<le> 1" "0 \<le> d p" "d p \<le> 1"
    and eig: "eig_contract eig p"
  shows "(\<exists>g1 g2 g3.
            G p = Inr [[R0_closed_form p, g1, g2, g3], [0, 0, 0, 0], [0, 0, 0, 0], [0, 0, 0, 0]] \<and>
            is_eigvals [[R0_closed_form p, g1, g2, g3], [0, 0, 0, 0], [0, 0, 0, 0], [0, 0, 0, 0]]
              [R0_closed_form p, 0, 0, 0] \<and>
            set (fst (eig [[R0_closed_form p, g1, g2, g3], [0, 0, 0, 0], [0, 0, 0, 0], [0, 0, 0, 0]]))
              = {R0_closed_form p, 0})
         \<and> R_0 eig p = Inr (R0_closed_form p)"
proof -
  from assms obtain g1 g2 g3
    where g: "G p = Inr [[R0_closed_form p, g1, g2, g3], [0, 0, 0, 0], [0, 0, 0, 0], [0, 0, 0, 0]]"
    using G_row_params [of p] by blast
  note r = R_0_row [OF g eig]
  have "0 \<le> R0_closed_form p"
    using assms by (intro R0_closed_form_nonneg) simp_all
  then have c: "R_0 eig p = Inr (R0_closed_form p)"
    by (simp add: r(2) max_def)
  have "\<exists>g1 g2 g3.
            G p = Inr [[R0_closed_form p, g1, g2, g3], [0, 0, 0, 0], [0, 0, 0, 0], [0, 0, 0, 0]] \<and>
            is_eigvals [[R0_closed_form p, g1, g2, g3], [0, 0, 0, 0], [0, 0, 0, 0], [0, 0, 0, 0]]
              [R0_closed_form p, 0, 0, 0] \<and>
            set (fst (eig [[R0_closed_form p, g1, g2, g3], [0, 0, 0, 0], [0, 0, 0, 0], [0, 0, 0, 0]]))
              = {R0_closed_form p, 0}"
    by (intro exI [of _ g1] exI [of _ g2] exI [of _ g3] conjI g r(1) is_eigvals_row)
  then show ?thesis
    using c by (intro conjI)
qed

theorem R_0_closed_form_refinement_witness:
  "0 < tauE notebook_params \<and> 0 < tauP notebook_params \<and> 0 < tauI notebook_params \<and>
   0 < tauD notebook_params \<and> 0 \<le> betaP notebook_params \<and> 0 \<le> betaA notebook_params \<and>
   0 \<le> f notebook_params \<and> f notebook_params \<le> 1 \<and> 0 \<le> d notebook_params \<and>
   d notebook_params \<le> 1 \<and> eig_contract diag_eig notebook_params \<and>
   R0_closed_form notebook_params = 1121 / 275 \<and>
   G notebook_params =
     Inr [[1121 / 275, 1121 / 275, 14 / 5, 32 / 11], [0, 0, 0, 0], [0, 0, 0, 0], [0, 0, 0, 0]] \<and>
   R_0 diag_eig notebook_params = Inr (R0_closed_form notebook_params)"
proof -
  have h: "eig_contract diag_eig notebook_params"
    by (simp add: eig_contract_def G_notebook diag_eig_row is_eigvals_row)
  have hyps: "0 < tauE notebook_params" "0 < tauP notebook_params" "0 < tauI notebook_params"
    "0 < tauD notebook_params" "0 \<le> betaP notebook_params" "0 \<le> betaA notebook_params"
    "0 \<le> f notebook_params" "f notebook_params \<le> 1"
    "0 \<le> d notebook_params" "d notebook_params \<le> 1"
    by (simp_all add: notebook_params_def)
  have c: "R0_closed_form notebook_params = 1121 / 275"
    by (simp add: R0_closed_form_def notebook_params_def)
  note inst = R_0_closed_form_refinement [OF hyps h]
  show ?thesis
    by (intro conjI hyps h c G_notebook inst [THEN conjunct2])
qed

text \<open>
  C8, as stated: the integrator raises an error, before any numeric work, exactly when
  the six components of the initial state do not sum to \<open>N\<close>. The state
  \<open>(100, 0, 0, 0, 0, 0)\<close> does not sum to the notebook's \<open>N = 4900000\<close>; \<open>SEIR\<close> accepts it
  and the run returns a trajectory.
\<close>

theorem sol_unvalidated_counterexample:
  "sum_list [100, 0, 0, 0, 0, 0] \<noteq> N notebook_params \<and>
   SEIR_args notebook_params [100, 0, 0, 0, 0, 0] 0 = Inr [0, 0, 0, 0, 0, 0] \<and>
   sol euler notebook_params [100, 0, 0, 0, 0, 0] [0, 1] =
     Inr [[100, 0, 0, 0, 0, 0], [100, 0, 0, 0, 0, 0]]"
  by (simp add: sol_def euler_def SEIR_args_def SEIR_six notebook_params_def)

text \<open>
  C8, amended: the integration cell has no validation step. It hands the initial state as
  it is to the solver, together with \<open>SEIR\<close> and the parameters; \<open>SEIR\<close> accepts every
  state of six components when \<open>N\<close> and the durations are not zero, whatever the components
  sum to; and a run of the stepping solver then returns one row for each grid point, the
  first of them the initial state as it was supplied.
\<close>

theorem sol_passes_state_unvalidated:
  "sol odeint p y0 ts = odeint (SEIR_args p) y0 ts \<and>
   (N p \<noteq> 0 \<and> tauE p \<noteq> 0 \<and> tauP p \<noteq> 0 \<and> tauI p \<noteq> 0 \<and> tauD p \<noteq> 0 \<and> length y0 = 6 \<longrightarrow>
      (\<exists>dydt. SEIR_args p y0 t = Inr dydt) \<and>
      (\<exists>rows. sol euler p y0 (t # ts) = Inr (y0 # rows) \<and> length rows = length ts))"
proof (intro conjI impI)
  show "sol odeint p y0 ts = odeint (SEIR_args p) y0 ts"
    by (simp add: sol_def)
next
  assume h: "N p \<noteq> 0 \<and> tauE p \<noteq> 0 \<and> tauP p \<noteq> 0 \<and> tauI p \<noteq> 0 \<and> tauD p \<noteq> 0 \<and> length y0 = 6"
  then show "\<exists>dydt. SEIR_args p y0 t = Inr dydt"
    using SEIR_args_accepts [of p y0 t] by blast
next
  assume h: "N p \<noteq> 0 \<and> tauE p \<noteq> 0 \<and> tauP p \<noteq> 0 \<and> tauI p \<noteq> 0 \<and> tauD p \<noteq> 0 \<and> length y0 = 6"
  then show "\<exists>rows. sol euler p y0 (t # ts) = Inr (y0 # rows) \<and> length rows = length ts"
    using euler_from_runs [of p y0 t ts] by (simp add: sol_def euler_def)
qed

theorem sol_passes_state_unvalidated_witness:
  "sum_list [100, 0, 0, 0, 0, 0] \<noteq> N notebook_params \<and>
   length [100, 0, 0, 0, 0, 0 :: real] = 6 \<and>
   (\<exists>dydt. SEIR_args notebook_params [100, 0, 0, 0, 0, 0] 0 = Inr dydt) \<and>
   (\<exists>rows. sol euler notebook_params [100, 0, 0, 0, 0, 0] [0, 1, 2] = Inr ([100, 0, 0, 0, 0, 0] # rows) \<and>
      length rows = length [1, 2 :: real])"
proof -
  have h: "N notebook_params \<noteq> 0 \<and> tauE notebook_params \<noteq> 0 \<and> tauP notebook_params \<noteq> 0 \<and>
      tauI notebook_params \<noteq> 0 \<and> tauD notebook_params \<noteq> 0 \<and> length [100, 0, 0, 0, 0, 0 :: real] = 6"
    by (simp add: notebook_params_def)
  note inst = sol_passes_state_unvalidated [where p = notebook_params
      and ?y0.0 = "[100, 0, 0, 0, 0, 0]" and t = 0 and ts = "[1, 2]", THEN conjunct2, THEN mp, OF h]
  moreover have "sum_list [100, 0, 0, 0, 0, 0] \<noteq> N notebook_params"
    by (simp add: notebook_params_def)
  ultimately show ?thesis by simp
qed

end
